theory Spec2Isabelle
  imports Main
begin

section \<open>Exercise 3: ThreadSafeQueue\<close>

text \<open>
  \<^verbatim>\<open>ThreadSafeQueue<T>\<close> guards a \<^verbatim>\<open>std::queue<T> queue_\<close> with one mutex; every member
  function touches \<^verbatim>\<open>queue_\<close> only while it holds the mutex. The queue is modelled as the
  list of its elements, front first. Each stretch of code that runs under the lock is an
  atomic function on that list; what other threads do while the lock is released (inside
  \<^verbatim>\<open>condition_.wait\<close>) is given explicitly as a schedule.
\<close>

type_synonym 'a queue = "'a list"

text \<open>\<^verbatim>\<open>queue_.push(item)\<close>: \<^verbatim>\<open>std::queue\<close> appends at the back.\<close>

definition queue_push :: "'a queue \<Rightarrow> 'a \<Rightarrow> 'a queue" where
  "queue_push q item = q @ [item]"

text \<open>
  \<^verbatim>\<open>push\<close> (both overloads): lock, \<^verbatim>\<open>queue_.push\<close>, unlock, \<^verbatim>\<open>notify_one\<close>. The notification
  changes no data; whom it wakes is part of the schedule of the waiting thread.
\<close>

definition ThreadSafeQueue_push :: "'a queue \<Rightarrow> 'a \<Rightarrow> 'a queue" where
  "ThreadSafeQueue_push q item = queue_push q item"

definition ThreadSafeQueue_empty :: "'a queue \<Rightarrow> bool" where
  "ThreadSafeQueue_empty q = (q = [])"

definition ThreadSafeQueue_size :: "'a queue \<Rightarrow> nat" where
  "ThreadSafeQueue_size q = length q"

text \<open>
  A critical section of another thread, as far as \<^verbatim>\<open>queue_\<close> is concerned: it pushes an
  item, or it removes the front (a successful pop of any kind), which it does only when
  the queue is non-empty. Calls that leave \<^verbatim>\<open>queue_\<close> alone need no event.
\<close>

datatype 'a env_op = EnvPush 'a | EnvPop

fun env_step :: "'a env_op \<Rightarrow> 'a queue \<Rightarrow> 'a queue" where
  "env_step (EnvPush y) q = ThreadSafeQueue_push q y"
| "env_step EnvPop [] = []"
| "env_step EnvPop (x # q) = q"

fun is_push :: "'a env_op \<Rightarrow> bool" where
  "is_push (EnvPush y) = True"
| "is_push EnvPop = False"

text \<open>
  \<^verbatim>\<open>condition_.wait(lock, pred)\<close> is \<^verbatim>\<open>while (!pred()) wait(lock);\<close> with
  \<^verbatim>\<open>pred = !queue_.empty()\<close>. Each call of \<^verbatim>\<open>wait(lock)\<close> releases the mutex, lets other
  threads run some critical sections, and returns with the mutex held again (woken by a
  notification or spuriously). The schedule lists, for each such call, what the other
  threads did meanwhile; when the schedule is used up the thread is not woken again.
  \<open>None\<close> is that case: the call has not returned.
\<close>

fun condition_wait :: "'a queue \<Rightarrow> 'a env_op list list \<Rightarrow> ('a queue \<times> 'a env_op list list) option" where
  "condition_wait (x # q) sched = Some (x # q, sched)"
| "condition_wait [] [] = None"
| "condition_wait [] (ops # sched) = condition_wait (fold env_step ops []) sched"

text \<open>
  The outcome of a call that may block. \<open>Undefined\<close> stands for \<^verbatim>\<open>queue_.front()\<close> on an
  empty queue, which the source never guards against after its wait.
\<close>

datatype 'r outcome = Blocked | Undefined | Returns 'r

text \<open>
  \<^verbatim>\<open>T pop()\<close>: wait for the predicate, then move the front out and \<^verbatim>\<open>queue_.pop()\<close>. The
  result is the item, the queue as the call leaves it, and the unused schedule.
\<close>

definition ThreadSafeQueue_pop ::
  "'a queue \<Rightarrow> 'a env_op list list \<Rightarrow> ('a \<times> 'a queue \<times> 'a env_op list list) outcome" where
  "ThreadSafeQueue_pop q sched =
     (case condition_wait q sched of
        None \<Rightarrow> Blocked
      | Some (q', rest) \<Rightarrow>
          (case q' of [] \<Rightarrow> Undefined | item # q'' \<Rightarrow> Returns (item, q'', rest)))"

subsection \<open>Blocking pop\<close>

lemma condition_wait_nonempty:
  "condition_wait q sched = Some (q', rest) \<Longrightarrow> q' \<noteq> []"
  by (induction q sched rule: condition_wait.induct) auto

lemma fold_env_step_no_push:
  "\<forall>e \<in> set ops. \<not> is_push e \<Longrightarrow> fold env_step ops [] = []"
proof (induction ops)
  case Nil
  show ?case by simp
next
  case (Cons e ops)
  then show ?case by (cases e) simp_all
qed

lemma condition_wait_no_push:
  "\<forall>ops \<in> set sched. \<forall>e \<in> set ops. \<not> is_push e \<Longrightarrow> condition_wait [] sched = None"
  by (induction sched) (simp_all add: fold_env_step_no_push)

lemma condition_wait_empty_woken:
  "condition_wait [] sched = Some (q', rest) \<Longrightarrow>
     \<exists>pre ops. sched = pre @ ops # rest \<and> fold env_step ops [] = q'
        \<and> (\<forall>os \<in> set pre. fold env_step os [] = [])"
proof (induction sched)
  case Nil
  then show ?case by simp
next
  case (Cons os sched)
  show ?case
  proof (cases "fold env_step os []")
    case Nil
    with Cons.prems have "condition_wait [] sched = Some (q', rest)" by simp
    from Cons.IH [OF this] obtain pre ops where
      "sched = pre @ ops # rest" "fold env_step ops [] = q'"
      "\<forall>os \<in> set pre. fold env_step os [] = []" by blast
    with Nil have "os # sched = (os # pre) @ ops # rest \<and> fold env_step ops [] = q'
        \<and> (\<forall>os' \<in> set (os # pre). fold env_step os' [] = [])" by simp
    then show ?thesis by blast
  next
    case (Cons y ys)
    with Cons.prems have "q' = y # ys" "rest = sched" by simp_all
    with Cons have "os # sched = [] @ os # rest \<and> fold env_step os [] = q'
        \<and> (\<forall>os' \<in> set []. fold env_step os' [] = [])" by simp
    then show ?thesis by blast
  qed
qed

lemma pop_blocked_without_push:
  "\<forall>ops \<in> set sched. \<forall>e \<in> set ops. \<not> is_push e \<Longrightarrow> ThreadSafeQueue_pop [] sched = Blocked"
  by (simp add: ThreadSafeQueue_pop_def condition_wait_no_push)

lemma pop_returned_after_push:
  assumes r: "ThreadSafeQueue_pop [] sched = Returns (item, q', rest)"
  shows "\<exists>pre ops. sched = pre @ ops # rest \<and> (\<exists>e \<in> set ops. is_push e)
        \<and> fold env_step ops [] = item # q'
        \<and> (\<forall>os \<in> set pre. fold env_step os [] = [])"
proof -
  from r have w: "condition_wait [] sched = Some (item # q', rest)"
    by (auto simp: ThreadSafeQueue_pop_def split: option.splits list.splits)
  from condition_wait_empty_woken [OF w] obtain pre ops where
    p: "sched = pre @ ops # rest" "fold env_step ops [] = item # q'"
       "\<forall>os \<in> set pre. fold env_step os [] = []" by blast
  have "\<exists>e \<in> set ops. is_push e"
  proof (rule ccontr)
    assume "\<not> (\<exists>e \<in> set ops. is_push e)"
    then have "fold env_step ops [] = []" by (simp add: fold_env_step_no_push)
    with p(2) show False by simp
  qed
  with p show ?thesis by blast
qed

lemma pop_removes_front:
  "ThreadSafeQueue_pop q sched = Returns (item, q', rest) \<Longrightarrow>
     \<exists>qr. condition_wait q sched = Some (qr, rest) \<and> qr = item # q'
        \<and> \<not> ThreadSafeQueue_empty qr
        \<and> ThreadSafeQueue_size q' + 1 = ThreadSafeQueue_size qr"
  by (auto simp: ThreadSafeQueue_pop_def ThreadSafeQueue_empty_def ThreadSafeQueue_size_def
        split: option.splits list.splits)

lemma condition_wait_woken_nonempty:
  "\<forall>os \<in> set pre. fold env_step os [] = [] \<Longrightarrow> fold env_step ops [] = x # q' \<Longrightarrow>
     condition_wait [] (pre @ ops # rest) = Some (x # q', rest)"
  by (induction pre) simp_all

lemma pop_returns_when_woken_nonempty:
  "\<forall>os \<in> set pre. fold env_step os [] = [] \<Longrightarrow> fold env_step ops [] = x # q' \<Longrightarrow>
     ThreadSafeQueue_pop [] (pre @ ops # rest) = Returns (x, q', rest)"
  by (simp add: ThreadSafeQueue_pop_def condition_wait_woken_nonempty)

lemma pop_nonempty_at_once:
  "ThreadSafeQueue_pop (x # q) sched = Returns (x, q, sched)"
  by (simp add: ThreadSafeQueue_pop_def)

text \<open>
  Claim C1. A blocking pop on an empty queue stays blocked as long as no other thread
  pushes; when it does return, some wait of it ended with the queue made non-empty by a
  concurrent push, every earlier wake-up having found the queue empty. Whenever pop
  completes, from any queue, it removes the front of a non-empty queue, so the size the
  call leaves is exactly one less than the size at the removal. It does return: at once
  on a non-empty queue, and from the first wake-up that finds the queue non-empty.
\<close>

theorem ThreadSafeQueue_pop_blocks_until_push:
  "((\<forall>ops \<in> set sched. \<forall>e \<in> set ops. \<not> is_push e) \<longrightarrow> ThreadSafeQueue_pop [] sched = Blocked)
   \<and> (ThreadSafeQueue_pop [] sched = Returns (item, q', rest) \<longrightarrow>
        (\<exists>pre ops. sched = pre @ ops # rest \<and> (\<exists>e \<in> set ops. is_push e)
           \<and> fold env_step ops [] = item # q'
           \<and> (\<forall>os \<in> set pre. fold env_step os [] = [])))
   \<and> (ThreadSafeQueue_pop q sched = Returns (item, q', rest) \<longrightarrow>
        (\<exists>qr. condition_wait q sched = Some (qr, rest) \<and> qr = item # q'
           \<and> \<not> ThreadSafeQueue_empty qr
           \<and> ThreadSafeQueue_size q' + 1 = ThreadSafeQueue_size qr))
   \<and> ((\<forall>os \<in> set pre. fold env_step os [] = []) \<and> fold env_step ops [] = item # q' \<longrightarrow>
        ThreadSafeQueue_pop [] (pre @ ops # rest) = Returns (item, q', rest))
   \<and> ThreadSafeQueue_pop (x # q) sched = Returns (x, q, sched)"
  using pop_blocked_without_push [of sched] pop_returned_after_push [of sched item q' rest]
    pop_removes_front [of q sched item q' rest] pop_nonempty_at_once [of x q sched]
    pop_returns_when_woken_nonempty [of pre ops item q' rest]
  by blast

theorem ThreadSafeQueue_pop_blocks_until_push_witness:
  "ThreadSafeQueue_pop [] [[], [EnvPop], []] = (Blocked :: (nat \<times> nat queue \<times> nat env_op list list) outcome)
   \<and> ThreadSafeQueue_pop [] ([[]] @ [EnvPush (7::nat), EnvPush 8] # [[EnvPop]]) = Returns (7, [8], [[EnvPop]])
   \<and> (\<exists>pre ops. [[]] @ [EnvPush (7::nat), EnvPush 8] # [[EnvPop]] = pre @ ops # [[EnvPop]]
         \<and> (\<exists>e \<in> set ops. is_push e) \<and> fold env_step ops [] = [7, 8])
   \<and> ThreadSafeQueue_size [8::nat] + 1 = ThreadSafeQueue_size [7::nat, 8]"
proof -
  have b: "\<forall>ops \<in> set [[], [EnvPop :: nat env_op], []]. \<forall>e \<in> set ops. \<not> is_push e"
    by simp
  have w: "(\<forall>os \<in> set [[]]. fold env_step os [] = ([] :: nat queue))
      \<and> fold env_step [EnvPush (7::nat), EnvPush 8] [] = 7 # [8]"
    by (simp add: ThreadSafeQueue_push_def queue_push_def)
  from ThreadSafeQueue_pop_blocks_until_push
    [of "[[], [EnvPop :: nat env_op], []]" 0 "[]" "[]" "[]" "[]" "[]" 0] b
  have 1: "ThreadSafeQueue_pop [] [[], [EnvPop], []] = (Blocked :: (nat \<times> nat queue \<times> nat env_op list list) outcome)"
    by blast
  from ThreadSafeQueue_pop_blocks_until_push
    [of "[[]] @ [EnvPush (7::nat), EnvPush 8] # [[EnvPop]]" 7 "[8]" "[[EnvPop]]" "[]"
        "[[]]" "[EnvPush 7, EnvPush 8]" 0] w
  have 2: "ThreadSafeQueue_pop [] ([[]] @ [EnvPush (7::nat), EnvPush 8] # [[EnvPop]]) = Returns (7, [8], [[EnvPop]])
       \<and> (\<exists>pre ops. [[]] @ [EnvPush (7::nat), EnvPush 8] # [[EnvPop]] = pre @ ops # [[EnvPop]]
         \<and> (\<exists>e \<in> set ops. is_push e) \<and> fold env_step ops [] = [7, 8])
       \<and> ThreadSafeQueue_size [8::nat] + 1 = ThreadSafeQueue_size [7::nat, 8]"
    by blast
  from 1 2 show ?thesis by blast
qed

subsection \<open>Non-blocking and timed pop\<close>

text \<open>
  \<^verbatim>\<open>bool try_pop(T& item)\<close>: under the lock, return false on an empty queue; otherwise
  move the front into \<^verbatim>\<open>item\<close>, pop it and return true. The result is the returned flag,
  the queue and the caller's \<^verbatim>\<open>item\<close> after the call.
\<close>

definition ThreadSafeQueue_try_pop_ref :: "'a queue \<Rightarrow> 'a \<Rightarrow> bool \<times> 'a queue \<times> 'a" where
  "ThreadSafeQueue_try_pop_ref q item =
     (if ThreadSafeQueue_empty q then (False, q, item) else (True, tl q, hd q))"

text \<open>\<^verbatim>\<open>std::optional<T> try_pop()\<close>: the same with the item returned in an optional.\<close>

definition ThreadSafeQueue_try_pop :: "'a queue \<Rightarrow> 'a option \<times> 'a queue" where
  "ThreadSafeQueue_try_pop q =
     (if ThreadSafeQueue_empty q then (None, q) else (Some (hd q), tl q))"

text \<open>
  \<^verbatim>\<open>condition_.wait_for(lock, timeout, pred)\<close> is
  \<^verbatim>\<open>while (!pred()) if (wait_until(lock, deadline) == cv_status::timeout) return pred(); return true;\<close>.
  The waits that end before the deadline are the list \<open>wakes\<close> (what other threads did
  during each); \<open>expiry\<close> is what they did during the wait that the deadline ends. The
  result is the value returned and the queue at that moment, the mutex held.
\<close>

fun condition_wait_for :: "'a queue \<Rightarrow> 'a env_op list list \<Rightarrow> 'a env_op list \<Rightarrow> bool \<times> 'a queue" where
  "condition_wait_for (x # q) wakes expiry = (True, x # q)"
| "condition_wait_for [] [] expiry =
     (let q' = fold env_step expiry [] in (\<not> ThreadSafeQueue_empty q', q'))"
| "condition_wait_for [] (ops # wakes) expiry = condition_wait_for (fold env_step ops []) wakes expiry"

text \<open>
  \<^verbatim>\<open>pop_timeout(timeout)\<close>: when \<^verbatim>\<open>wait_for\<close> returns true, move the front out and pop it;
  otherwise return \<^verbatim>\<open>std::nullopt\<close>.
\<close>

definition ThreadSafeQueue_pop_timeout ::
  "'a queue \<Rightarrow> 'a env_op list list \<Rightarrow> 'a env_op list \<Rightarrow> ('a option \<times> 'a queue) outcome" where
  "ThreadSafeQueue_pop_timeout q wakes expiry =
     (case condition_wait_for q wakes expiry of
        (True, q') \<Rightarrow> (case q' of [] \<Rightarrow> Undefined | item # q'' \<Rightarrow> Returns (Some item, q''))
      | (False, q') \<Rightarrow> Returns (None, q'))"

lemma condition_wait_for_flag:
  "condition_wait_for q wakes expiry = (b, q') \<Longrightarrow> b = (q' \<noteq> [])"
  by (induction q wakes expiry rule: condition_wait_for.induct)
     (auto simp: ThreadSafeQueue_empty_def Let_def)

lemma condition_wait_for_expired:
  "condition_wait_for q wakes expiry = (False, q') \<Longrightarrow> q = [] \<and> q' = []"
  using condition_wait_for_flag [of q wakes expiry False q']
  by (cases q) auto

lemma pop_timeout_expired:
  assumes "condition_wait_for q wakes expiry = (False, q')"
  shows "q = [] \<and> q' = [] \<and> ThreadSafeQueue_pop_timeout q wakes expiry = Returns (None, q)"
  using assms condition_wait_for_expired [OF assms]
  by (simp add: ThreadSafeQueue_pop_timeout_def)

lemma pop_timeout_returns:
  "\<exists>r. ThreadSafeQueue_pop_timeout q wakes expiry = Returns r"
proof (cases "condition_wait_for q wakes expiry")
  case (Pair b q')
  with condition_wait_for_flag [OF Pair] show ?thesis
    by (cases q') (auto simp: ThreadSafeQueue_pop_timeout_def)
qed

lemma condition_wait_for_woken:
  "\<forall>os \<in> set pre. fold env_step os [] = [] \<Longrightarrow> fold env_step ops [] = y # ys \<Longrightarrow>
     condition_wait_for [] (pre @ ops # rest) expiry = (True, y # ys)"
  by (induction pre) simp_all

lemma condition_wait_for_deadline:
  "\<forall>os \<in> set wakes. fold env_step os [] = [] \<Longrightarrow>
     condition_wait_for [] wakes expiry = (fold env_step expiry [] \<noteq> [], fold env_step expiry [])"
  by (induction wakes) (simp_all add: ThreadSafeQueue_empty_def Let_def)

lemma pop_timeout_woken:
  assumes "condition_wait_for q wakes expiry = (True, q')"
  shows "q' \<noteq> [] \<and> ThreadSafeQueue_pop_timeout q wakes expiry = Returns (Some (hd q'), tl q')"
proof -
  from condition_wait_for_flag [OF assms] have "q' \<noteq> []" by simp
  then obtain z zs where "q' = z # zs" by (cases q') auto
  with assms show ?thesis by (simp add: ThreadSafeQueue_pop_timeout_def)
qed

lemma pop_timeout_woken_schedule:
  assumes "\<forall>os \<in> set pre. fold env_step os [] = []" and "fold env_step ops [] = y # ys"
  shows "condition_wait_for [] (pre @ ops # rest) expiry = (True, y # ys)
       \<and> ThreadSafeQueue_pop_timeout [] (pre @ ops # rest) expiry = Returns (Some y, ys)"
  using condition_wait_for_woken [OF assms, of rest expiry]
    pop_timeout_woken [of "[]" "pre @ ops # rest" expiry "y # ys"]
  by simp

lemma pop_timeout_deadline:
  assumes "\<forall>os \<in> set wakes. fold env_step os [] = []"
  shows "condition_wait_for [] wakes expiry = (fold env_step expiry [] \<noteq> [], fold env_step expiry [])
       \<and> ThreadSafeQueue_pop_timeout [] wakes expiry =
           (case fold env_step expiry [] of
              [] \<Rightarrow> Returns (None, [])
            | z # zs \<Rightarrow> Returns (Some z, zs))"
  using condition_wait_for_deadline [OF assms, of expiry]
  by (cases "fold env_step expiry []") (simp_all add: ThreadSafeQueue_pop_timeout_def)

text \<open>
  Claim C3. On an empty queue both \<^verbatim>\<open>try_pop\<close> overloads return the empty result (false,
  \<^verbatim>\<open>nullopt\<close>) and leave the queue, and the caller's item, as they were; they contain no
  wait. A \<^verbatim>\<open>pop_timeout\<close> whose wait expires with the predicate false returns \<^verbatim>\<open>nullopt\<close> and
  the queue, empty when the call began, is empty still. On a non-empty queue each of the
  three returns the front element and removes exactly it. \<^verbatim>\<open>pop_timeout\<close> always returns,
  and what it returns is fixed by its wait: whenever the wait ends with the predicate true,
  on the queue \<open>q'\<close>, the call returns the front of \<open>q'\<close> and leaves the rest of \<open>q'\<close>. The
  wait itself ends at once on a non-empty queue, at the first wake-up that finds the queue
  non-empty, and otherwise at the deadline, with the predicate evaluated there.
\<close>

theorem ThreadSafeQueue_try_pop_and_timeout:
  "ThreadSafeQueue_try_pop_ref [] item = (False, [], item)
   \<and> ThreadSafeQueue_try_pop ([] :: 'a queue) = (None, [])
   \<and> (condition_wait_for q wakes expiry = (False, q') \<longrightarrow>
        q = [] \<and> q' = [] \<and> ThreadSafeQueue_pop_timeout q wakes expiry = Returns (None, q))
   \<and> ThreadSafeQueue_try_pop_ref (x # xs) item = (True, xs, x)
   \<and> ThreadSafeQueue_try_pop (x # xs) = (Some x, xs)
   \<and> ThreadSafeQueue_pop_timeout (x # xs) wakes expiry = Returns (Some x, xs)
   \<and> (\<exists>r. ThreadSafeQueue_pop_timeout q wakes expiry = Returns r)
   \<and> (condition_wait_for q wakes expiry = (True, q') \<longrightarrow>
        q' \<noteq> [] \<and> ThreadSafeQueue_pop_timeout q wakes expiry = Returns (Some (hd q'), tl q'))
   \<and> condition_wait_for (x # xs) wakes expiry = (True, x # xs)
   \<and> ((\<forall>os \<in> set pre. fold env_step os [] = []) \<and> fold env_step ops [] = y # ys \<longrightarrow>
        condition_wait_for [] (pre @ ops # rest) expiry = (True, y # ys)
        \<and> ThreadSafeQueue_pop_timeout [] (pre @ ops # rest) expiry = Returns (Some y, ys))
   \<and> ((\<forall>os \<in> set wakes. fold env_step os [] = []) \<longrightarrow>
        condition_wait_for [] wakes expiry = (fold env_step expiry [] \<noteq> [], fold env_step expiry [])
        \<and> ThreadSafeQueue_pop_timeout [] wakes expiry =
            (case fold env_step expiry [] of
               [] \<Rightarrow> Returns (None, [])
             | z # zs \<Rightarrow> Returns (Some z, zs)))"
proof -
  have old: "ThreadSafeQueue_try_pop_ref [] item = (False, [], item)
   \<and> ThreadSafeQueue_try_pop ([] :: 'a queue) = (None, [])
   \<and> (condition_wait_for q wakes expiry = (False, q') \<longrightarrow>
        q = [] \<and> q' = [] \<and> ThreadSafeQueue_pop_timeout q wakes expiry = Returns (None, q))
   \<and> ThreadSafeQueue_try_pop_ref (x # xs) item = (True, xs, x)
   \<and> ThreadSafeQueue_try_pop (x # xs) = (Some x, xs)
   \<and> ThreadSafeQueue_pop_timeout (x # xs) wakes expiry = Returns (Some x, xs)
   \<and> (\<exists>r. ThreadSafeQueue_pop_timeout q wakes expiry = Returns r)"
    using pop_timeout_expired [of q wakes expiry q'] pop_timeout_returns [of q wakes expiry]
    by (simp add: ThreadSafeQueue_try_pop_ref_def ThreadSafeQueue_try_pop_def
          ThreadSafeQueue_empty_def ThreadSafeQueue_pop_timeout_def)
  have now: "condition_wait_for (x # xs) wakes expiry = (True, x # xs)" by simp
  from old now pop_timeout_woken [of q wakes expiry q']
    pop_timeout_woken_schedule [of pre ops y ys rest expiry]
    pop_timeout_deadline [of wakes expiry]
  show ?thesis by blast
qed

text \<open>
  Four runs of \<^verbatim>\<open>pop_timeout\<close> on an empty queue. Others push 5 and pop it again, and the
  deadline passes: \<^verbatim>\<open>nullopt\<close>. After a spurious wake-up others push 5 and 6: 5, leaving 6.
  Nobody leaves anything before the deadline, but 9 is pushed during the last wait: 9.
  And on the queue 4, 6: 4 at once, whatever the schedule.
\<close>

theorem ThreadSafeQueue_try_pop_and_timeout_witness:
  "condition_wait_for [] [[], [EnvPush (5::nat), EnvPop]] [EnvPop] = (False, [])
   \<and> ThreadSafeQueue_pop_timeout [] [[], [EnvPush (5::nat), EnvPop]] [EnvPop] = Returns (None, [])
   \<and> ThreadSafeQueue_try_pop_ref [4::nat, 6] 0 = (True, [6], 4)
   \<and> ThreadSafeQueue_try_pop [4::nat, 6] = (Some 4, [6])
   \<and> ThreadSafeQueue_pop_timeout [4::nat, 6] [[], [EnvPush 5, EnvPop]] [EnvPop] = Returns (Some 4, [6])
   \<and> condition_wait_for [] ([[]] @ [EnvPush (5::nat), EnvPush 6] # [[EnvPop]]) [] = (True, [5, 6])
   \<and> ThreadSafeQueue_pop_timeout [] ([[]] @ [EnvPush (5::nat), EnvPush 6] # [[EnvPop]]) [] = Returns (Some 5, [6])
   \<and> ThreadSafeQueue_pop_timeout [] [[], [EnvPush (5::nat), EnvPop]] [EnvPush 9] = Returns (Some 9, [])"
proof -
  have w: "condition_wait_for [] [[], [EnvPush (5::nat), EnvPop]] [EnvPop] = (False, [])"
    by (simp add: ThreadSafeQueue_push_def queue_push_def ThreadSafeQueue_empty_def)
  have p: "(\<forall>os \<in> set [[]]. fold env_step os [] = ([] :: nat queue))
      \<and> fold env_step [EnvPush (5::nat), EnvPush 6] [] = 5 # [6]"
    by (simp add: ThreadSafeQueue_push_def queue_push_def)
  have d: "\<forall>os \<in> set [[], [EnvPush (5::nat), EnvPop]]. fold env_step os [] = []"
    by (simp add: ThreadSafeQueue_push_def queue_push_def)
  have e: "fold env_step [EnvPush (9::nat)] [] = [9]"
    by (simp add: ThreadSafeQueue_push_def queue_push_def)
  from ThreadSafeQueue_try_pop_and_timeout
    [where item = 0 and q = "[]" and wakes = "[[], [EnvPush (5::nat), EnvPop]]"
       and expiry = "[EnvPop]" and q' = "[]" and x = 4 and xs = "[6]"] w
  have 1: "ThreadSafeQueue_pop_timeout [] [[], [EnvPush (5::nat), EnvPop]] [EnvPop] = Returns (None, [])
     \<and> ThreadSafeQueue_try_pop_ref [4::nat, 6] 0 = (True, [6], 4)
     \<and> ThreadSafeQueue_try_pop [4::nat, 6] = (Some 4, [6])
     \<and> ThreadSafeQueue_pop_timeout [4::nat, 6] [[], [EnvPush 5, EnvPop]] [EnvPop] = Returns (Some 4, [6])"
    by blast
  from ThreadSafeQueue_try_pop_and_timeout
    [where pre = "[[]]" and ops = "[EnvPush (5::nat), EnvPush 6]" and y = 5 and ys = "[6]"
       and rest = "[[EnvPop]]" and expiry = "[]"] p
  have 2: "condition_wait_for [] ([[]] @ [EnvPush (5::nat), EnvPush 6] # [[EnvPop]]) [] = (True, [5, 6])
     \<and> ThreadSafeQueue_pop_timeout [] ([[]] @ [EnvPush (5::nat), EnvPush 6] # [[EnvPop]]) [] = Returns (Some 5, [6])"
    by blast
  from ThreadSafeQueue_try_pop_and_timeout
    [where wakes = "[[], [EnvPush (5::nat), EnvPop]]" and expiry = "[EnvPush 9]"] d
  have "ThreadSafeQueue_pop_timeout [] [[], [EnvPush (5::nat), EnvPop]] [EnvPush 9] =
            (case fold env_step [EnvPush (9::nat)] [] of
               [] \<Rightarrow> Returns (None, [])
             | z # zs \<Rightarrow> Returns (Some z, zs))"
    by blast
  then have 3: "ThreadSafeQueue_pop_timeout [] [[], [EnvPush (5::nat), EnvPop]] [EnvPush 9] = Returns (Some 9, [])"
    unfolding e by simp
  from w 1 2 3 show ?thesis by blast
qed

subsection \<open>First in, first out\<close>

text \<open>
  The mutex puts the critical sections of all threads in one order. A history lists, in
  that order, the calls that touch \<^verbatim>\<open>queue_\<close>: a push, or the section in which a pop of one of
  the four kinds tests the queue and, when it can, takes the front. Between the sections
  of a history nothing else happens, so each pop runs with no further schedule; a blocking
  pop that finds the queue empty delivers nothing here and keeps waiting.
\<close>

datatype 'a call = Push 'a | Pop | TryPopRef 'a | TryPop | PopTimeout

fun call_step :: "'a call \<Rightarrow> 'a queue \<Rightarrow> 'a option \<times> 'a queue" where
  "call_step (Push x) q = (None, ThreadSafeQueue_push q x)"
| "call_step Pop q =
     (case ThreadSafeQueue_pop q [] of Returns (x, q', rest) \<Rightarrow> (Some x, q') | _ \<Rightarrow> (None, q))"
| "call_step (TryPopRef item) q =
     (case ThreadSafeQueue_try_pop_ref q item of (ok, q', x) \<Rightarrow> (if ok then Some x else None, q'))"
| "call_step TryPop q = ThreadSafeQueue_try_pop q"
| "call_step PopTimeout q =
     (case ThreadSafeQueue_pop_timeout q [] [] of Returns r \<Rightarrow> r | _ \<Rightarrow> (None, q))"

text \<open>The items delivered by the pops of a history, in the order of delivery, and the queue left.\<close>

fun run_calls :: "'a call list \<Rightarrow> 'a queue \<Rightarrow> 'a list \<times> 'a queue" where
  "run_calls [] q = ([], q)"
| "run_calls (c # cs) q =
     (case call_step c q of (r, q') \<Rightarrow>
        (case run_calls cs q' of (delivered, q'') \<Rightarrow> (case_option [] (\<lambda>x. [x]) r @ delivered, q'')))"

fun pushed :: "'a call list \<Rightarrow> 'a list" where
  "pushed [] = []"
| "pushed (Push x # cs) = x # pushed cs"
| "pushed (c # cs) = pushed cs"

fun is_pop :: "'a call \<Rightarrow> bool" where
  "is_pop (Push x) = False"
| "is_pop c = True"

lemma call_step_pop:
  "is_pop c \<Longrightarrow> call_step c [] = (None, [])"
  "is_pop c \<Longrightarrow> call_step c (x # q) = (Some x, q)"
  by (cases c; simp add: ThreadSafeQueue_pop_def ThreadSafeQueue_try_pop_ref_def
        ThreadSafeQueue_try_pop_def ThreadSafeQueue_pop_timeout_def ThreadSafeQueue_empty_def)+

lemma call_step_push: "call_step (Push x) q = (None, q @ [x])"
  by (simp add: ThreadSafeQueue_push_def queue_push_def)

lemma call_step_conserves:
  "call_step c q = (r, q') \<Longrightarrow> case_option [] (\<lambda>x. [x]) r @ q' = q @ pushed [c]"
  by (cases c; cases q)
     (auto simp: ThreadSafeQueue_push_def queue_push_def ThreadSafeQueue_pop_def
        ThreadSafeQueue_try_pop_ref_def ThreadSafeQueue_try_pop_def
        ThreadSafeQueue_pop_timeout_def ThreadSafeQueue_empty_def)

lemma pushed_Cons: "pushed (c # cs) = pushed [c] @ pushed cs"
  by (cases c) simp_all

lemma run_calls_conserves:
  "run_calls cs q = (delivered, q') \<Longrightarrow> delivered @ q' = q @ pushed cs"
proof (induction cs arbitrary: q delivered q')
  case Nil
  then show ?case by simp
next
  case (Cons c cs)
  obtain r q1 where s: "call_step c q = (r, q1)" by (cases "call_step c q")
  obtain d q2 where t: "run_calls cs q1 = (d, q2)" by (cases "run_calls cs q1")
  from Cons.prems s t have e: "delivered = case_option [] (\<lambda>x. [x]) r @ d" "q' = q2"
    by (simp_all del: call_step.simps)
  from Cons.IH [OF t] have "d @ q2 = q1 @ pushed cs" .
  with e have "delivered @ q' = (case_option [] (\<lambda>x. [x]) r @ q1) @ pushed cs" by simp
  also have "\<dots> = (q @ pushed [c]) @ pushed cs"
    using call_step_conserves [OF s] by simp
  also have "\<dots> = q @ pushed (c # cs)"
    using pushed_Cons [of c cs] by simp
  finally show ?case .
qed

lemma run_calls_append:
  "run_calls (cs @ ds) q =
     (case run_calls cs q of (d1, q1) \<Rightarrow> (case run_calls ds q1 of (d2, q2) \<Rightarrow> (d1 @ d2, q2)))"
  by (induction cs arbitrary: q) (auto split: prod.splits)

lemma run_calls_pushes: "run_calls (map Push xs) q = ([], q @ xs)"
  by (induction xs arbitrary: q) (simp_all add: call_step_push del: call_step.simps)

lemma run_calls_pops:
  "\<forall>c \<in> set ps. is_pop c \<Longrightarrow> run_calls ps q = (take (length ps) q, drop (length ps) q)"
proof (induction ps arbitrary: q)
  case Nil
  show ?case by simp
next
  case (Cons c ps)
  then have c: "is_pop c" and ps: "\<forall>c \<in> set ps. is_pop c" by simp_all
  show ?case
  proof (cases q)
    case Nil
    with c Cons.IH [OF ps, of "[]"] show ?thesis
      by (simp add: call_step_pop del: call_step.simps)
  next
    case (Cons y ys)
    with c Cons.IH [OF ps, of ys] show ?thesis
      by (simp add: call_step_pop del: call_step.simps)
  qed
qed

text \<open>
  Claim C4. Delivery is first in, first out. In every history from the empty queue, the
  items delivered so far followed by the items still queued are exactly the items pushed,
  in the order of the pushes. In particular, after any sequence of pushes, successive pops
  of any kind return those items in the order in which they were pushed.
\<close>

theorem ThreadSafeQueue_fifo:
  "fst (run_calls cs []) @ snd (run_calls cs []) = pushed cs
   \<and> ((\<forall>c \<in> set ps. is_pop c) \<longrightarrow>
        run_calls (map Push xs @ ps) [] = (take (length ps) xs, drop (length ps) xs))"
proof -
  have "fst (run_calls cs []) @ snd (run_calls cs []) = pushed cs"
    using run_calls_conserves [of cs "[]" "fst (run_calls cs [])" "snd (run_calls cs [])"]
    by simp
  moreover have "(\<forall>c \<in> set ps. is_pop c) \<longrightarrow>
        run_calls (map Push xs @ ps) [] = (take (length ps) xs, drop (length ps) xs)"
    using run_calls_pops [of ps xs] by (simp add: run_calls_append run_calls_pushes)
  ultimately show ?thesis by blast
qed

theorem ThreadSafeQueue_fifo_witness:
  "run_calls (map Push [1::nat, 2, 3] @ [Pop, TryPop, PopTimeout, TryPopRef 0]) [] = ([1, 2, 3], [])
   \<and> run_calls (map Push [1::nat, 2, 3] @ [TryPopRef 9, Pop]) [] = ([1, 2], [3])"
proof -
  have a: "\<forall>c \<in> set [Pop, TryPop, PopTimeout, TryPopRef (0::nat)]. is_pop c" by simp
  have b: "\<forall>c \<in> set [TryPopRef (9::nat), Pop]. is_pop c" by simp
  from ThreadSafeQueue_fifo [of "[]" "[Pop, TryPop, PopTimeout, TryPopRef (0::nat)]" "[1, 2, 3]"] a
    ThreadSafeQueue_fifo [of "[]" "[TryPopRef (9::nat), Pop]" "[1, 2, 3]"] b
  show ?thesis by simp
qed

section \<open>Exercise 7: virtual inheritance\<close>

text \<open>
  \<^verbatim>\<open>Base\<close> counts its live instances in the static \<^verbatim>\<open>instance_count_\<close> (a C++ \<^verbatim>\<open>int\<close>, here an
  integer; it starts at 0) and every constructor and destructor prints one line. The state
  of the program is that counter and the lines printed so far, one event per line with the
  values the line shows. Field names are the source's without the trailing underscore.
\<close>

datatype ex7_event =
    Base_constructed string int
  | Base_destructed string int
  | Derived1_constructed string int
  | Derived1_destructed
  | Derived2_constructed string int
  | Derived2_destructed
  | Final_constructed string int int int
  | Final_destructed

record ex7_state =
  instance_count :: int
  printed :: "ex7_event list"

definition ex7_initial :: ex7_state where
  "ex7_initial = \<lparr>instance_count = 0, printed = []\<rparr>"

record Base =
  Base_name :: string

text \<open>
  A \<^verbatim>\<open>Final\<close> object: \<^verbatim>\<open>Derived1\<close> and \<^verbatim>\<open>Derived2\<close> inherit \<^verbatim>\<open>public virtual Base\<close>, so the
  object holds one \<^verbatim>\<open>Base\<close> subobject, shared, beside the fields of the three classes.
\<close>

record Final =
  Final_Base :: Base
  value1 :: int
  value2 :: int
  finalValue :: int

text \<open>\<^verbatim>\<open>Base(const std::string& name) : name_(name) { ++instance_count_; ... }\<close>\<close>

definition Base_ctor :: "string \<Rightarrow> ex7_state \<Rightarrow> Base \<times> ex7_state" where
  "Base_ctor name st =
     (let n = instance_count st + 1
      in (\<lparr>Base_name = name\<rparr>,
          st\<lparr>instance_count := n, printed := printed st @ [Base_constructed name n]\<rparr>))"

definition Base_dtor :: "Base \<Rightarrow> ex7_state \<Rightarrow> ex7_state" where
  "Base_dtor b st =
     (let n = instance_count st - 1
      in st\<lparr>instance_count := n, printed := printed st @ [Base_destructed (Base_name b) n]\<rparr>)"

definition getInstanceCount :: "ex7_state \<Rightarrow> int" where
  "getInstanceCount st = instance_count st"

text \<open>
  \<^verbatim>\<open>Derived1(const std::string& name, int v1) : Base(name + "_D1"), value1_(v1) { ... }\<close>.
  \<^verbatim>\<open>Base\<close> is a virtual base, so its initializer runs only when \<^verbatim>\<open>Derived1\<close> is the most
  derived class of the object under construction; when \<^verbatim>\<open>Derived1\<close> is a base subobject the
  initializer is skipped and the most derived class has built the \<^verbatim>\<open>Base\<close> already. The
  flag says which; the result holds the \<^verbatim>\<open>Base\<close> this call built, if any, and \<^verbatim>\<open>value1_\<close>.
\<close>

definition Derived1_ctor ::
  "bool \<Rightarrow> string \<Rightarrow> int \<Rightarrow> ex7_state \<Rightarrow> (Base option \<times> int) \<times> ex7_state" where
  "Derived1_ctor most_derived name v1 st =
     (case (if most_derived then map_prod Some id (Base_ctor (name @ ''_D1'') st) else (None, st)) of
        (vbase, st1) \<Rightarrow>
          ((vbase, v1), st1\<lparr>printed := printed st1 @ [Derived1_constructed name v1]\<rparr>))"

definition Derived2_ctor ::
  "bool \<Rightarrow> string \<Rightarrow> int \<Rightarrow> ex7_state \<Rightarrow> (Base option \<times> int) \<times> ex7_state" where
  "Derived2_ctor most_derived name v2 st =
     (case (if most_derived then map_prod Some id (Base_ctor (name @ ''_D2'') st) else (None, st)) of
        (vbase, st1) \<Rightarrow>
          ((vbase, v2), st1\<lparr>printed := printed st1 @ [Derived2_constructed name v2]\<rparr>))"

text \<open>
  \<^verbatim>\<open>Final(name, v1, v2, fv) : Base(name), Derived1(name, v1), Derived2(name, v2), finalValue_(fv)\<close>:
  \<^verbatim>\<open>Final\<close> is the most derived class, so it initializes the virtual base first, then its
  direct bases in declaration order as base subobjects, then its member, then its body.
\<close>

definition Final_ctor :: "string \<Rightarrow> int \<Rightarrow> int \<Rightarrow> int \<Rightarrow> ex7_state \<Rightarrow> Final \<times> ex7_state" where
  "Final_ctor name v1 v2 fv st =
     (case Base_ctor name st of (b, st1) \<Rightarrow>
      case Derived1_ctor False name v1 st1 of ((vb1, x1), st2) \<Rightarrow>
      case Derived2_ctor False name v2 st2 of ((vb2, x2), st3) \<Rightarrow>
        (\<lparr>Final_Base = b, value1 = x1, value2 = x2, finalValue = fv\<rparr>,
         st3\<lparr>printed := printed st3 @ [Final_constructed name v1 v2 fv]\<rparr>))"

text \<open>
  \<^verbatim>\<open>~Final()\<close> of a complete object: the bodies of \<^verbatim>\<open>~Final\<close>, \<^verbatim>\<open>~Derived2\<close>, \<^verbatim>\<open>~Derived1\<close>, then the
  virtual base last.
\<close>

definition Final_dtor :: "Final \<Rightarrow> ex7_state \<Rightarrow> ex7_state" where
  "Final_dtor obj st =
     Base_dtor (Final_Base obj)
       (st\<lparr>printed := printed st @ [Final_destructed, Derived2_destructed, Derived1_destructed]\<rparr>)"

lemma Derived_base_subobject_count:
  "instance_count (snd (Derived1_ctor False name v st)) = instance_count st"
  "instance_count (snd (Derived2_ctor False name v st)) = instance_count st"
  by (simp_all add: Derived1_ctor_def Derived2_ctor_def)

lemma Final_ctor_state:
  "snd (Final_ctor name v1 v2 fv st) =
     st\<lparr>instance_count := instance_count st + 1,
        printed := printed st @
          [Base_constructed name (instance_count st + 1), Derived1_constructed name v1,
           Derived2_constructed name v2, Final_constructed name v1 v2 fv]\<rparr>"
  by (simp add: Final_ctor_def Derived1_ctor_def Derived2_ctor_def Base_ctor_def Let_def)

text \<open>
  Claim C2. Constructing one \<^verbatim>\<open>Final\<close> object runs the \<^verbatim>\<open>Base\<close> constructor exactly once:
  from the program's initial state \<^verbatim>\<open>Base::getInstanceCount()\<close> is 1 afterwards, from any
  state the counter grows by exactly one, and the lines printed are one \<^verbatim>\<open>Base\<close> line (with
  the name \<^verbatim>\<open>Final\<close> passed) followed by those of \<^verbatim>\<open>Derived1\<close>, \<^verbatim>\<open>Derived2\<close> and \<^verbatim>\<open>Final\<close>. The
  intermediate classes, built as base subobjects, leave the counter alone, however many of
  them are built. Destroying the object brings the counter back.
\<close>

theorem Final_constructs_one_Base:
  "getInstanceCount (snd (Final_ctor name v1 v2 fv ex7_initial)) = 1
   \<and> getInstanceCount (snd (Final_ctor name v1 v2 fv st)) = getInstanceCount st + 1
   \<and> printed (snd (Final_ctor name v1 v2 fv st)) = printed st @
        [Base_constructed name (instance_count st + 1), Derived1_constructed name v1,
         Derived2_constructed name v2, Final_constructed name v1 v2 fv]
   \<and> Base_name (Final_Base (fst (Final_ctor name v1 v2 fv st))) = name
   \<and> getInstanceCount (fold (\<lambda>(n, v) s. snd (Derived1_ctor False n v s)) ds1
        (fold (\<lambda>(n, v) s. snd (Derived2_ctor False n v s)) ds2 st)) = getInstanceCount st
   \<and> getInstanceCount (Final_dtor (fst (Final_ctor name v1 v2 fv st))
        (snd (Final_ctor name v1 v2 fv st))) = getInstanceCount st"
proof -
  have d1: "instance_count (fold (\<lambda>(n, v) s. snd (Derived1_ctor False n v s)) ds s) = instance_count s"
    for ds s
    by (induction ds arbitrary: s) (simp_all add: Derived_base_subobject_count split: prod.splits)
  have d2: "instance_count (fold (\<lambda>(n, v) s. snd (Derived2_ctor False n v s)) ds s) = instance_count s"
    for ds s
    by (induction ds arbitrary: s) (simp_all add: Derived_base_subobject_count split: prod.splits)
  have n: "Base_name (Final_Base (fst (Final_ctor name v1 v2 fv st))) = name"
    by (simp add: Final_ctor_def Derived1_ctor_def Derived2_ctor_def Base_ctor_def Let_def)
  show ?thesis
    by (simp add: getInstanceCount_def Final_ctor_state ex7_initial_def d1 d2 n
          Final_dtor_def Base_dtor_def Let_def)
qed

theorem Final_constructs_one_Base_witness:
  "getInstanceCount (snd (Final_ctor ''Test'' 10 20 30 ex7_initial)) = 1
   \<and> printed (snd (Final_ctor ''Test'' 10 20 30 ex7_initial)) =
        [Base_constructed ''Test'' 1, Derived1_constructed ''Test'' 10,
         Derived2_constructed ''Test'' 20, Final_constructed ''Test'' 10 20 30]
   \<and> getInstanceCount (Final_dtor (fst (Final_ctor ''Test'' 10 20 30 ex7_initial))
        (snd (Final_ctor ''Test'' 10 20 30 ex7_initial))) = 0"
  using Final_constructs_one_Base [of "''Test''" 10 20 30 ex7_initial "[]" "[]"]
  by (simp add: ex7_initial_def getInstanceCount_def)

section \<open>Exercise 8: TrackedResource\<close>

text \<open>
  \<^verbatim>\<open>TrackedResource\<close> has one field, \<^verbatim>\<open>id_\<close>, and five static counters; every special member
  function prints one line. Objects live in a store, addressed, because the assignment
  operators compare \<^verbatim>\<open>this\<close> with \<^verbatim>\<open>&other\<close> and the move operations write to their source.
  The C++ \<^verbatim>\<open>int\<close>s are integers here (signed overflow, undefined in C++, is not modelled).
  A member function called with a reference to no live object has no defined result:
  \<open>None\<close>. A constructor builds a new object, which its argument cannot be: \<open>None\<close> too
  when the two addresses are the same.
\<close>

type_synonym addr = nat

datatype ex8_event =
    TR_constructed int int
  | TR_copy_constructed int int
  | TR_move_constructed int int
  | TR_copy_assigned int int
  | TR_move_assigned int int
  | TR_destructed int

record TrackedResource =
  TR_id :: int

record ex8_state =
  objects :: "addr \<rightharpoonup> TrackedResource"
  copy_count :: int
  move_count :: int
  copy_assign_count :: int
  move_assign_count :: int
  next_id :: int
  trace :: "ex8_event list"

definition resetCounters :: "ex8_state \<Rightarrow> ex8_state" where
  "resetCounters st =
     st\<lparr>copy_count := 0, move_count := 0, copy_assign_count := 0, move_assign_count := 0,
        next_id := 1\<rparr>"

text \<open>\<^verbatim>\<open>explicit TrackedResource(int value = 0) : id_(next_id_++)\<close>\<close>

definition TrackedResource_ctor :: "addr \<Rightarrow> int \<Rightarrow> ex8_state \<Rightarrow> ex8_state" where
  "TrackedResource_ctor this v st =
     st\<lparr>objects := (objects st)(this \<mapsto> \<lparr>TR_id = next_id st\<rparr>),
        next_id := next_id st + 1,
        trace := trace st @ [TR_constructed (next_id st) v]\<rparr>"

text \<open>\<^verbatim>\<open>TrackedResource(const TrackedResource& other) : id_(next_id_++) { ++copy_count_; ... }\<close>\<close>

definition TrackedResource_copy_ctor :: "addr \<Rightarrow> addr \<Rightarrow> ex8_state \<Rightarrow> ex8_state option" where
  "TrackedResource_copy_ctor this other st =
     (case objects st other of
        None \<Rightarrow> None
      | Some oth \<Rightarrow>
          if this = other then None
          else Some (st\<lparr>objects := (objects st)(this \<mapsto> \<lparr>TR_id = next_id st\<rparr>),
                       next_id := next_id st + 1,
                       copy_count := copy_count st + 1,
                       trace := trace st @ [TR_copy_constructed (next_id st) (TR_id oth)]\<rparr>))"

text \<open>
  \<^verbatim>\<open>TrackedResource(TrackedResource&& other) noexcept : id_(other.id_)\<close>
  \<^verbatim>\<open>{ ++move_count_; other.id_ = -1; ... << id_ << ... << other.id_ ... }\<close>:
  the line is printed after the source was marked, so it shows \<open>-1\<close> for the source.
\<close>

definition TrackedResource_move_ctor :: "addr \<Rightarrow> addr \<Rightarrow> ex8_state \<Rightarrow> ex8_state option" where
  "TrackedResource_move_ctor this other st =
     (case objects st other of
        None \<Rightarrow> None
      | Some oth \<Rightarrow>
          if this = other then None
          else Some (st\<lparr>objects := (objects st)(this \<mapsto> \<lparr>TR_id = TR_id oth\<rparr>, other \<mapsto> \<lparr>TR_id = - 1\<rparr>),
                       move_count := move_count st + 1,
                       trace := trace st @ [TR_move_constructed (TR_id oth) (- 1)]\<rparr>))"

text \<open>\<^verbatim>\<open>operator=(const TrackedResource& other)\<close>: nothing on self-assignment.\<close>

definition TrackedResource_copy_assign :: "addr \<Rightarrow> addr \<Rightarrow> ex8_state \<Rightarrow> ex8_state option" where
  "TrackedResource_copy_assign this other st =
     (case (objects st this, objects st other) of
        (Some t, Some oth) \<Rightarrow>
          if this \<noteq> other
          then Some (st\<lparr>objects := (objects st)(this \<mapsto> \<lparr>TR_id = next_id st\<rparr>),
                       copy_assign_count := copy_assign_count st + 1,
                       next_id := next_id st + 1,
                       trace := trace st @ [TR_copy_assigned (next_id st) (TR_id oth)]\<rparr>)
          else Some st
      | _ \<Rightarrow> None)"

text \<open>\<^verbatim>\<open>operator=(TrackedResource&& other) noexcept\<close>: nothing on self-assignment.\<close>

definition TrackedResource_move_assign :: "addr \<Rightarrow> addr \<Rightarrow> ex8_state \<Rightarrow> ex8_state option" where
  "TrackedResource_move_assign this other st =
     (case (objects st this, objects st other) of
        (Some t, Some oth) \<Rightarrow>
          if this \<noteq> other
          then Some (st\<lparr>objects := (objects st)(this \<mapsto> \<lparr>TR_id = TR_id oth\<rparr>, other \<mapsto> \<lparr>TR_id = - 1\<rparr>),
                       move_assign_count := move_assign_count st + 1,
                       trace := trace st @ [TR_move_assigned (TR_id oth) (- 1)]\<rparr>)
          else Some st
      | _ \<Rightarrow> None)"

text \<open>\<^verbatim>\<open>~TrackedResource() { if (id_ >= 0) { ... } }\<close>\<close>

definition TrackedResource_dtor :: "addr \<Rightarrow> ex8_state \<Rightarrow> ex8_state option" where
  "TrackedResource_dtor this st =
     (case objects st this of
        None \<Rightarrow> None
      | Some t \<Rightarrow>
          Some (st\<lparr>objects := (objects st)(this := None),
                  trace := trace st @ (if TR_id t \<ge> 0 then [TR_destructed (TR_id t)] else [])\<rparr>))"

text \<open>
  The expressions that initialize an object in the exercise: the name of a variable,
  constant-qualified or not, and the same cast by \<^verbatim>\<open>std::move\<close>, which changes the value
  category and nothing else.
\<close>

datatype expr = Lvalue addr | ConstLvalue addr | Xvalue addr | ConstXvalue addr

fun std_move :: "expr \<Rightarrow> expr" where
  "std_move (Lvalue a) = Xvalue a"
| "std_move (ConstLvalue a) = ConstXvalue a"
| "std_move (Xvalue a) = Xvalue a"
| "std_move (ConstXvalue a) = ConstXvalue a"

fun referent :: "expr \<Rightarrow> addr" where
  "referent (Lvalue a) = a"
| "referent (ConstLvalue a) = a"
| "referent (Xvalue a) = a"
| "referent (ConstXvalue a) = a"

text \<open>
  The two constructors that take another \<^verbatim>\<open>TrackedResource\<close>: the parameter
  \<^verbatim>\<open>const TrackedResource&\<close> binds to every expression, \<^verbatim>\<open>TrackedResource&&\<close> only to an
  rvalue that is not constant-qualified.
\<close>

fun binds_copy_ctor :: "expr \<Rightarrow> bool" where
  "binds_copy_ctor e = True"

fun binds_move_ctor :: "expr \<Rightarrow> bool" where
  "binds_move_ctor (Xvalue a) = True"
| "binds_move_ctor e = False"

text \<open>
  \<^verbatim>\<open>TrackedResource x = e;\<close>: overload resolution takes the move constructor when it is
  viable (an rvalue binds better to an rvalue reference) and the copy constructor otherwise.
\<close>

definition TrackedResource_init :: "addr \<Rightarrow> expr \<Rightarrow> ex8_state \<Rightarrow> ex8_state option" where
  "TrackedResource_init this e st =
     (if binds_move_ctor e then TrackedResource_move_ctor this (referent e) st
      else if binds_copy_ctor e then TrackedResource_copy_ctor this (referent e) st
      else None)"

text \<open>\<^verbatim>\<open>x = e;\<close> for the two assignment operators, chosen the same way.\<close>

definition TrackedResource_assign :: "addr \<Rightarrow> expr \<Rightarrow> ex8_state \<Rightarrow> ex8_state option" where
  "TrackedResource_assign this e st =
     (if binds_move_ctor e then TrackedResource_move_assign this (referent e) st
      else TrackedResource_copy_assign this (referent e) st)"

text \<open>The statics as initialized at namespace scope, before any object exists.\<close>

definition ex8_initial :: ex8_state where
  "ex8_initial =
     \<lparr>objects = Map.empty, copy_count = 0, move_count = 0, copy_assign_count = 0,
      move_assign_count = 0, next_id = 1, trace = []\<rparr>"

subsection \<open>The moved-from state\<close>

lemma move_ctor_source:
  assumes "objects st other = Some oth" "this \<noteq> other"
  shows "\<exists>st'. TrackedResource_move_ctor this other st = Some st'
           \<and> objects st' other = Some \<lparr>TR_id = - 1\<rparr>
           \<and> objects st' this = Some \<lparr>TR_id = TR_id oth\<rparr>
           \<and> next_id st' = next_id st"
  using assms by (simp add: TrackedResource_move_ctor_def)

lemma move_assign_source:
  assumes "objects st other = Some oth" "this \<noteq> other" "objects st this = Some t"
  shows "\<exists>st'. TrackedResource_move_assign this other st = Some st'
           \<and> objects st' other = Some \<lparr>TR_id = - 1\<rparr>
           \<and> objects st' this = Some \<lparr>TR_id = TR_id oth\<rparr>
           \<and> next_id st' = next_id st"
  using assms by (simp add: TrackedResource_move_assign_def)

lemma moved_from_dtor_silent:
  assumes "objects st a = Some \<lparr>TR_id = - 1\<rparr>"
  shows "\<exists>st'. TrackedResource_dtor a st = Some st' \<and> trace st' = trace st
           \<and> objects st' = (objects st)(a := None)"
  using assms by (simp add: TrackedResource_dtor_def)

lemma moved_from_reassign:
  assumes "objects st a = Some \<lparr>TR_id = - 1\<rparr>" "objects st b = Some x" "a \<noteq> b"
  shows "\<exists>st'. TrackedResource_copy_assign a b st = Some st'
           \<and> objects st' a = Some \<lparr>TR_id = next_id st\<rparr>"
    and "\<exists>st'. TrackedResource_move_assign a b st = Some st'
           \<and> objects st' a = Some \<lparr>TR_id = TR_id x\<rparr>"
  using assms by (simp_all add: TrackedResource_copy_assign_def TrackedResource_move_assign_def)

text \<open>
  Claim C5. Let \<open>other\<close> be a live object and \<open>this\<close> a different one. After the move
  constructor, and after the move assignment (to a live \<open>this\<close>), the source holds the
  identifier \<open>-1\<close> whatever it held before, and the destination holds the source's former
  identifier. The source can then be destroyed, its destructor adding nothing to the
  trace, or be assigned to again, by copy (which gives it the next fresh identifier) or by
  move (which gives it the identifier of the new source).
\<close>

theorem TrackedResource_moved_from_inert:
  assumes "objects st other = Some oth" and "this \<noteq> other"
  shows "(\<exists>st'. TrackedResource_move_ctor this other st = Some st'
            \<and> objects st' other = Some \<lparr>TR_id = - 1\<rparr>
            \<and> objects st' this = Some \<lparr>TR_id = TR_id oth\<rparr>
            \<and> (\<exists>st''. TrackedResource_dtor other st' = Some st'' \<and> trace st'' = trace st'
                  \<and> objects st'' other = None)
            \<and> (\<exists>st''. TrackedResource_copy_assign other this st' = Some st''
                  \<and> objects st'' other = Some \<lparr>TR_id = next_id st\<rparr>)
            \<and> (\<exists>st''. TrackedResource_move_assign other this st' = Some st''
                  \<and> objects st'' other = Some \<lparr>TR_id = TR_id oth\<rparr>))
       \<and> (objects st this \<noteq> None \<longrightarrow>
            (\<exists>st'. TrackedResource_move_assign this other st = Some st'
               \<and> objects st' other = Some \<lparr>TR_id = - 1\<rparr>
               \<and> objects st' this = Some \<lparr>TR_id = TR_id oth\<rparr>
               \<and> (\<exists>st''. TrackedResource_dtor other st' = Some st'' \<and> trace st'' = trace st'
                     \<and> objects st'' other = None)
               \<and> (\<exists>st''. TrackedResource_copy_assign other this st' = Some st''
                     \<and> objects st'' other = Some \<lparr>TR_id = next_id st\<rparr>)
               \<and> (\<exists>st''. TrackedResource_move_assign other this st' = Some st''
                     \<and> objects st'' other = Some \<lparr>TR_id = TR_id oth\<rparr>)))"
proof -
  have after: "(\<exists>st''. TrackedResource_dtor other st' = Some st'' \<and> trace st'' = trace st'
                  \<and> objects st'' other = None)
            \<and> (\<exists>st''. TrackedResource_copy_assign other this st' = Some st''
                  \<and> objects st'' other = Some \<lparr>TR_id = next_id st\<rparr>)
            \<and> (\<exists>st''. TrackedResource_move_assign other this st' = Some st''
                  \<and> objects st'' other = Some \<lparr>TR_id = TR_id oth\<rparr>)"
    if m: "objects st' other = Some \<lparr>TR_id = - 1\<rparr>" "objects st' this = Some \<lparr>TR_id = TR_id oth\<rparr>"
      "next_id st' = next_id st" for st'
  proof -
    from moved_from_dtor_silent [OF m(1)] have 1:
      "\<exists>st''. TrackedResource_dtor other st' = Some st'' \<and> trace st'' = trace st'
          \<and> objects st'' other = None" by auto
    from assms(2) have ne: "other \<noteq> this" by simp
    from moved_from_reassign [OF m(1) m(2) ne] m(3) have 2:
      "\<exists>st''. TrackedResource_copy_assign other this st' = Some st''
          \<and> objects st'' other = Some \<lparr>TR_id = next_id st\<rparr>"
      "\<exists>st''. TrackedResource_move_assign other this st' = Some st''
          \<and> objects st'' other = Some \<lparr>TR_id = TR_id oth\<rparr>" by simp_all
    from 1 2 show ?thesis by blast
  qed
  from move_ctor_source [OF assms] obtain s1 where s1:
    "TrackedResource_move_ctor this other st = Some s1"
    "objects s1 other = Some \<lparr>TR_id = - 1\<rparr>" "objects s1 this = Some \<lparr>TR_id = TR_id oth\<rparr>"
    "next_id s1 = next_id st" by blast
  from s1 after [OF s1(2) s1(3) s1(4)] have A:
    "\<exists>st'. TrackedResource_move_ctor this other st = Some st'
            \<and> objects st' other = Some \<lparr>TR_id = - 1\<rparr>
            \<and> objects st' this = Some \<lparr>TR_id = TR_id oth\<rparr>
            \<and> (\<exists>st''. TrackedResource_dtor other st' = Some st'' \<and> trace st'' = trace st'
                  \<and> objects st'' other = None)
            \<and> (\<exists>st''. TrackedResource_copy_assign other this st' = Some st''
                  \<and> objects st'' other = Some \<lparr>TR_id = next_id st\<rparr>)
            \<and> (\<exists>st''. TrackedResource_move_assign other this st' = Some st''
                  \<and> objects st'' other = Some \<lparr>TR_id = TR_id oth\<rparr>)" by blast
  have B: "\<exists>st'. TrackedResource_move_assign this other st = Some st'
               \<and> objects st' other = Some \<lparr>TR_id = - 1\<rparr>
               \<and> objects st' this = Some \<lparr>TR_id = TR_id oth\<rparr>
               \<and> (\<exists>st''. TrackedResource_dtor other st' = Some st'' \<and> trace st'' = trace st'
                     \<and> objects st'' other = None)
               \<and> (\<exists>st''. TrackedResource_copy_assign other this st' = Some st''
                     \<and> objects st'' other = Some \<lparr>TR_id = next_id st\<rparr>)
               \<and> (\<exists>st''. TrackedResource_move_assign other this st' = Some st''
                     \<and> objects st'' other = Some \<lparr>TR_id = TR_id oth\<rparr>)"
    if live: "objects st this \<noteq> None"
  proof -
    from live obtain t where t: "objects st this = Some t" by blast
    from move_assign_source [OF assms t] obtain s2 where s2:
      "TrackedResource_move_assign this other st = Some s2"
      "objects s2 other = Some \<lparr>TR_id = - 1\<rparr>" "objects s2 this = Some \<lparr>TR_id = TR_id oth\<rparr>"
      "next_id s2 = next_id st" by blast
    from s2 after [OF s2(2) s2(3) s2(4)] show ?thesis by blast
  qed
  from A B show ?thesis by blast
qed

text \<open>
  Tests 1 and 3 of the exercise's \<^verbatim>\<open>main\<close>: \<^verbatim>\<open>obj1(10)\<close> at address 1, then
  \<^verbatim>\<open>TrackedResource obj3 = std::move(obj1)\<close> at address 3. And Test 10: \<^verbatim>\<open>obj9(80)\<close> at
  address 9, the temporary \<^verbatim>\<open>TrackedResource(90)\<close> at address 10, and \<^verbatim>\<open>obj9 = \<close> that temporary.
\<close>

definition ex8_test3 :: ex8_state where
  "ex8_test3 = TrackedResource_ctor 1 10 (resetCounters ex8_initial)"

definition ex8_test10 :: ex8_state where
  "ex8_test10 = TrackedResource_ctor 10 90 (TrackedResource_ctor 9 80 (resetCounters ex8_initial))"

theorem TrackedResource_moved_from_inert_witness:
  "objects ex8_test3 1 = Some \<lparr>TR_id = 1\<rparr>
   \<and> (3::addr) \<noteq> 1
   \<and> (\<exists>st'. TrackedResource_init 3 (std_move (Lvalue 1)) ex8_test3 = Some st'
         \<and> objects st' 1 = Some \<lparr>TR_id = - 1\<rparr>
         \<and> objects st' 3 = Some \<lparr>TR_id = 1\<rparr>
         \<and> (\<exists>st''. TrackedResource_dtor 1 st' = Some st'' \<and> trace st'' = trace st'))
   \<and> objects ex8_test10 10 = Some \<lparr>TR_id = 2\<rparr>
   \<and> (9::addr) \<noteq> 10
   \<and> objects ex8_test10 9 \<noteq> None
   \<and> (\<exists>st'. TrackedResource_assign 9 (Xvalue 10) ex8_test10 = Some st'
         \<and> objects st' 10 = Some \<lparr>TR_id = - 1\<rparr>
         \<and> objects st' 9 = Some \<lparr>TR_id = 2\<rparr>
         \<and> (\<exists>st''. TrackedResource_dtor 10 st' = Some st'' \<and> trace st'' = trace st'))"
proof -
  have live: "objects ex8_test3 1 = Some \<lparr>TR_id = 1\<rparr>"
    by (simp add: ex8_test3_def TrackedResource_ctor_def resetCounters_def ex8_initial_def)
  have ne: "(3::addr) \<noteq> 1" by simp
  have i: "TrackedResource_init 3 (std_move (Lvalue 1)) s = TrackedResource_move_ctor 3 1 s" for s
    by (simp add: TrackedResource_init_def)
  have live': "objects ex8_test10 10 = Some \<lparr>TR_id = 2\<rparr>" "objects ex8_test10 9 \<noteq> None"
    by (simp_all add: ex8_test10_def TrackedResource_ctor_def resetCounters_def ex8_initial_def)
  have ne': "(9::addr) \<noteq> 10" by simp
  have j: "TrackedResource_assign 9 (Xvalue 10) s = TrackedResource_move_assign 9 10 s" for s
    by (simp add: TrackedResource_assign_def)
  from TrackedResource_moved_from_inert [OF live ne]
  have A: "\<exists>st'. TrackedResource_init 3 (std_move (Lvalue 1)) ex8_test3 = Some st'
         \<and> objects st' 1 = Some \<lparr>TR_id = - 1\<rparr>
         \<and> objects st' 3 = Some \<lparr>TR_id = 1\<rparr>
         \<and> (\<exists>st''. TrackedResource_dtor 1 st' = Some st'' \<and> trace st'' = trace st')"
    unfolding i by auto
  from TrackedResource_moved_from_inert [OF live'(1) ne'] live'(2)
  have B: "\<exists>st'. TrackedResource_assign 9 (Xvalue 10) ex8_test10 = Some st'
         \<and> objects st' 10 = Some \<lparr>TR_id = - 1\<rparr>
         \<and> objects st' 9 = Some \<lparr>TR_id = 2\<rparr>
         \<and> (\<exists>st''. TrackedResource_dtor 10 st' = Some st'' \<and> trace st'' = trace st')"
    unfolding j by auto
  from live ne A live' ne' B show ?thesis by blast
qed

section \<open>Exercise 4: RAII and exception safety\<close>

text \<open>
  Exceptions are values: a constructor returns either the exception it throws or the
  object it built, together with the state of the statics and of the output. A
  \<^verbatim>\<open>const char*\<close> is \<open>None\<close> for the null pointer and \<open>Some s\<close> for a pointer to the characters
  \<open>s\<close> followed by the terminator, so that \<^verbatim>\<open>strlen\<close> is \<open>length\<close>. Allocation itself is
  taken to succeed.
\<close>

datatype exn = invalid_argument string | runtime_error string | out_of_range string

datatype ex4_event =
    FileHandle_opened string int
  | FileHandle_closed int
  | Buffer_allocated nat int
  | Buffer_deallocated nat int
  | Buffer_copied nat int
  | Buffer_moved nat

record ex4_state =
  next_fd :: int
  Buffer_instance_count :: int
  ex4_out :: "ex4_event list"

definition ex4_initial :: ex4_state where
  "ex4_initial = \<lparr>next_fd = 1, Buffer_instance_count = 0, ex4_out = []\<rparr>"

record FileHandle =
  fd :: int

text \<open>
  \<^verbatim>\<open>FileHandle(const char* filename) : fd_(-1)\<close>
  \<^verbatim>\<open>{ if (!filename || strlen(filename) == 0) throw std::invalid_argument("Invalid filename");\<close>
  \<^verbatim>\<open>  fd_ = next_fd_++; ... }\<close>
\<close>

definition FileHandle_ctor :: "string option \<Rightarrow> ex4_state \<Rightarrow> (exn + FileHandle) \<times> ex4_state" where
  "FileHandle_ctor filename st =
     (case filename of
        None \<Rightarrow> (Inl (invalid_argument ''Invalid filename''), st)
      | Some f \<Rightarrow>
          if length f = 0 then (Inl (invalid_argument ''Invalid filename''), st)
          else (Inr \<lparr>fd = next_fd st\<rparr>,
                st\<lparr>next_fd := next_fd st + 1,
                   ex4_out := ex4_out st @ [FileHandle_opened f (next_fd st)]\<rparr>))"

definition FileHandle_is_valid :: "FileHandle \<Rightarrow> bool" where
  "FileHandle_is_valid h = (fd h \<ge> 0)"

text \<open>\<^verbatim>\<open>~FileHandle() { if (fd_ >= 0) { ...; fd_ = -1; } }\<close>\<close>

definition FileHandle_dtor :: "FileHandle \<Rightarrow> ex4_state \<Rightarrow> ex4_state" where
  "FileHandle_dtor h st =
     (if fd h \<ge> 0 then st\<lparr>ex4_out := ex4_out st @ [FileHandle_closed (fd h)]\<rparr> else st)"

text \<open>
  \<^verbatim>\<open>Buffer\<close> owns its array: \<^verbatim>\<open>data_\<close> is \<open>None\<close> for the null pointer and the array's contents
  otherwise.
\<close>

record Buffer =
  Buffer_size :: nat
  Buffer_data :: "char list option"

text \<open>
  \<^verbatim>\<open>explicit Buffer(size_t size) : size_(size), data_(nullptr)\<close>
  \<^verbatim>\<open>{ if (size == 0) throw std::invalid_argument("Buffer size must be > 0");\<close>
  \<^verbatim>\<open>  data_ = new char[size_]; std::fill(data_, data_ + size_, 0); ++instance_count_; ... }\<close>
\<close>

definition Buffer_ctor :: "nat \<Rightarrow> ex4_state \<Rightarrow> (exn + Buffer) \<times> ex4_state" where
  "Buffer_ctor sz st =
     (if sz = 0 then (Inl (invalid_argument ''Buffer size must be > 0''), st)
      else (Inr \<lparr>Buffer_size = sz, Buffer_data = Some (replicate sz (CHR 0x00))\<rparr>,
            st\<lparr>Buffer_instance_count := Buffer_instance_count st + 1,
               ex4_out := ex4_out st @ [Buffer_allocated sz (Buffer_instance_count st + 1)]\<rparr>))"

definition Buffer_is_valid :: "Buffer \<Rightarrow> bool" where
  "Buffer_is_valid b = (Buffer_data b \<noteq> None \<and> Buffer_size b > 0)"

text \<open>\<^verbatim>\<open>~Buffer() { if (data_) { delete[] data_; --instance_count_; ... } }\<close>\<close>

definition Buffer_dtor :: "Buffer \<Rightarrow> ex4_state \<Rightarrow> ex4_state" where
  "Buffer_dtor b st =
     (if Buffer_data b \<noteq> None
      then st\<lparr>Buffer_instance_count := Buffer_instance_count st - 1,
              ex4_out := ex4_out st @ [Buffer_deallocated (Buffer_size b) (Buffer_instance_count st - 1)]\<rparr>
      else st)"

text \<open>
  \<^verbatim>\<open>ResourceWrapper<Resource>\<close> holds a \<^verbatim>\<open>std::unique_ptr<Resource> resource_\<close>: \<open>None\<close> for
  null, the owned resource otherwise. The template is generic in \<^verbatim>\<open>Resource\<close>; its
  constructor and destructor are parameters here.
\<close>

record 'r ResourceWrapper =
  resource :: "'r option"

text \<open>\<^verbatim>\<open>resource_.reset()\<close>: destroy the owned resource, if any, and hold null.\<close>

definition unique_ptr_reset ::
  "('r \<Rightarrow> 's \<Rightarrow> 's) \<Rightarrow> 'r ResourceWrapper \<Rightarrow> 's \<Rightarrow> 'r ResourceWrapper \<times> 's" where
  "unique_ptr_reset Resource_dtor w st =
     (case resource w of
        None \<Rightarrow> (w, st)
      | Some r \<Rightarrow> (w\<lparr>resource := None\<rparr>, Resource_dtor r st))"

text \<open>
  \<^verbatim>\<open>explicit ResourceWrapper(Args&&... args) : resource_(nullptr)\<close>
  \<^verbatim>\<open>{ try { resource_ = std::make_unique<Resource>(args...); } catch (...) { throw; } }\<close>.
  The result is the exception that leaves the constructor, if any, and the member
  \<^verbatim>\<open>resource_\<close> as it stands when the constructor is left.
\<close>

definition ResourceWrapper_ctor ::
  "('a \<Rightarrow> 's \<Rightarrow> (exn + 'r) \<times> 's) \<Rightarrow> 'a \<Rightarrow> 's \<Rightarrow> (exn option \<times> 'r ResourceWrapper) \<times> 's" where
  "ResourceWrapper_ctor Resource_ctor args st =
     (let w = \<lparr>resource = None\<rparr>
      in case Resource_ctor args st of
           (Inl e, st') \<Rightarrow> ((Some e, w), st')
         | (Inr r, st') \<Rightarrow> ((None, w\<lparr>resource := Some r\<rparr>), st'))"

text \<open>\<^verbatim>\<open>~ResourceWrapper() noexcept { resource_.reset(); }\<close>\<close>

definition ResourceWrapper_dtor :: "('r \<Rightarrow> 's \<Rightarrow> 's) \<Rightarrow> 'r ResourceWrapper \<Rightarrow> 's \<Rightarrow> 's" where
  "ResourceWrapper_dtor Resource_dtor w st = snd (unique_ptr_reset Resource_dtor w st)"

text \<open>\<^verbatim>\<open>is_valid()\<close>: \<^verbatim>\<open>resource_ != nullptr && resource_->is_valid()\<close>\<close>

definition ResourceWrapper_is_valid :: "('r \<Rightarrow> bool) \<Rightarrow> 'r ResourceWrapper \<Rightarrow> bool" where
  "ResourceWrapper_is_valid Resource_is_valid w =
     (case resource w of None \<Rightarrow> False | Some r \<Rightarrow> Resource_is_valid r)"

text \<open>
  \<^verbatim>\<open>operator=(ResourceWrapper&& other) noexcept\<close>, on a store of wrappers since it compares
  \<^verbatim>\<open>this\<close> with \<^verbatim>\<open>&other\<close>: unless they are the same object, release the current resource
  and take over the other's, leaving the other null.
\<close>

definition ResourceWrapper_move_assign ::
  "('r \<Rightarrow> 's \<Rightarrow> 's) \<Rightarrow> addr \<Rightarrow> addr \<Rightarrow> (addr \<rightharpoonup> 'r ResourceWrapper) \<times> 's
     \<Rightarrow> ((addr \<rightharpoonup> 'r ResourceWrapper) \<times> 's) option" where
  "ResourceWrapper_move_assign Resource_dtor this other = (\<lambda>(ws, st).
     (case (ws this, ws other) of
        (Some t, Some oth) \<Rightarrow>
          if this \<noteq> other
          then (case unique_ptr_reset Resource_dtor t st of
                  (t', st') \<Rightarrow>
                    Some (ws(this \<mapsto> t'\<lparr>resource := resource oth\<rparr>, other \<mapsto> oth\<lparr>resource := None\<rparr>), st'))
          else Some (ws, st)
      | _ \<Rightarrow> None))"

subsection \<open>Failed acquisition\<close>

lemma ResourceWrapper_ctor_throws:
  "Resource_ctor args st = (Inl e, st') \<Longrightarrow>
     ResourceWrapper_ctor Resource_ctor args st = ((Some e, \<lparr>resource = None\<rparr>), st')"
  by (simp add: ResourceWrapper_ctor_def)

lemma FileHandle_ctor_throws_iff:
  "(\<exists>e. fst (FileHandle_ctor filename st) = Inl e) = (filename = None \<or> filename = Some [])"
  by (auto simp: FileHandle_ctor_def split: option.splits)

lemma Buffer_ctor_throws_iff:
  "(\<exists>m. fst (Buffer_ctor sz st) = Inl (invalid_argument m)) = (sz = 0)"
  by (simp add: Buffer_ctor_def)

text \<open>
  Claim C7. \<^verbatim>\<open>FileHandle\<close> built from a null or an empty filename throws
  \<^verbatim>\<open>std::invalid_argument\<close> (and from no other filename), \<^verbatim>\<open>Buffer\<close> built with size 0 throws
  \<^verbatim>\<open>std::invalid_argument\<close> (and that exception with no other size; a failing allocation,
  which would throw \<^verbatim>\<open>std::bad_alloc\<close>, is not modelled); neither changes the statics or prints.
  When the resource's constructor throws inside \<^verbatim>\<open>ResourceWrapper\<close>'s constructor, the same
  exception leaves it, \<^verbatim>\<open>resource_\<close> is still null, and destroying a wrapper in that state
  does nothing: for the two resources of the exercise the state after the failed
  construction is the state before it.
\<close>

theorem failed_construction_acquires_nothing:
  "FileHandle_ctor None st = (Inl (invalid_argument ''Invalid filename''), st)
   \<and> FileHandle_ctor (Some []) st = (Inl (invalid_argument ''Invalid filename''), st)
   \<and> (\<exists>e. fst (FileHandle_ctor filename st) = Inl e) = (filename = None \<or> filename = Some [])
   \<and> Buffer_ctor 0 st = (Inl (invalid_argument ''Buffer size must be > 0''), st)
   \<and> (\<exists>m. fst (Buffer_ctor sz st) = Inl (invalid_argument m)) = (sz = 0)
   \<and> (Resource_ctor args s = (Inl e, s') \<longrightarrow>
        ResourceWrapper_ctor Resource_ctor args s = ((Some e, \<lparr>resource = None\<rparr>), s'))
   \<and> ResourceWrapper_ctor FileHandle_ctor None st =
        ((Some (invalid_argument ''Invalid filename''), \<lparr>resource = None\<rparr>), st)
   \<and> ResourceWrapper_ctor FileHandle_ctor (Some []) st =
        ((Some (invalid_argument ''Invalid filename''), \<lparr>resource = None\<rparr>), st)
   \<and> ResourceWrapper_ctor Buffer_ctor 0 st =
        ((Some (invalid_argument ''Buffer size must be > 0''), \<lparr>resource = None\<rparr>), st)
   \<and> ResourceWrapper_dtor Resource_dtor \<lparr>resource = None\<rparr> s = s"
proof -
  have f: "FileHandle_ctor None st = (Inl (invalid_argument ''Invalid filename''), st)"
    "FileHandle_ctor (Some []) st = (Inl (invalid_argument ''Invalid filename''), st)"
    by (simp_all add: FileHandle_ctor_def)
  have b: "Buffer_ctor 0 st = (Inl (invalid_argument ''Buffer size must be > 0''), st)"
    by (simp add: Buffer_ctor_def)
  have d: "ResourceWrapper_dtor Resource_dtor \<lparr>resource = None\<rparr> s = s"
    by (simp add: ResourceWrapper_dtor_def unique_ptr_reset_def)
  from f b d ResourceWrapper_ctor_throws [of FileHandle_ctor None st _ st]
    ResourceWrapper_ctor_throws [of FileHandle_ctor "Some []" st _ st]
    ResourceWrapper_ctor_throws [of Buffer_ctor 0 st _ st]
    ResourceWrapper_ctor_throws [of Resource_ctor args s e s']
    FileHandle_ctor_throws_iff [of filename st] Buffer_ctor_throws_iff [of sz st]
  show ?thesis by blast
qed

text \<open>
  \<^verbatim>\<open>test_exception_safety\<close>: \<^verbatim>\<open>ResourceWrapper<FileHandle> file("")\<close> in the initial state,
  and for contrast the valid \<^verbatim>\<open>file("exception_test.txt")\<close> that follows it.
\<close>

theorem failed_construction_acquires_nothing_witness:
  "FileHandle_ctor (Some []) ex4_initial = (Inl (invalid_argument ''Invalid filename''), ex4_initial)
   \<and> ResourceWrapper_ctor FileHandle_ctor (Some []) ex4_initial =
        ((Some (invalid_argument ''Invalid filename''), \<lparr>resource = None\<rparr>), ex4_initial)
   \<and> ResourceWrapper_dtor FileHandle_dtor \<lparr>resource = None\<rparr> ex4_initial = ex4_initial
   \<and> ResourceWrapper_ctor FileHandle_ctor (Some ''exception_test.txt'') ex4_initial =
        ((None, \<lparr>resource = Some \<lparr>fd = 1\<rparr>\<rparr>),
         \<lparr>next_fd = 2, Buffer_instance_count = 0,
          ex4_out = [FileHandle_opened ''exception_test.txt'' 1]\<rparr>)"
proof -
  have t: "FileHandle_ctor (Some []) ex4_initial = (Inl (invalid_argument ''Invalid filename''), ex4_initial)"
    by (simp add: FileHandle_ctor_def)
  have v: "ResourceWrapper_ctor FileHandle_ctor (Some ''exception_test.txt'') ex4_initial =
        ((None, \<lparr>resource = Some \<lparr>fd = 1\<rparr>\<rparr>),
         \<lparr>next_fd = 2, Buffer_instance_count = 0,
          ex4_out = [FileHandle_opened ''exception_test.txt'' 1]\<rparr>)"
    by (simp add: ResourceWrapper_ctor_def FileHandle_ctor_def ex4_initial_def)
  from failed_construction_acquires_nothing
    [of ex4_initial "Some []" 0 FileHandle_ctor "Some []" ex4_initial
        "invalid_argument ''Invalid filename''" ex4_initial FileHandle_dtor] t v
  show ?thesis by simp
qed

section \<open>Exercise 2: ResourceManager\<close>

text \<open>
  \<^verbatim>\<open>ResourceManager\<close> owns an \<^verbatim>\<open>int\<close> array through the raw pointer \<^verbatim>\<open>buffer_\<close>. The heap maps
  the address of each live array to its contents; \<^verbatim>\<open>new\<close> takes the next unused address.
  The managers themselves live in a store, since the move assignment compares \<^verbatim>\<open>this\<close>
  with \<^verbatim>\<open>&other\<close>.
\<close>

datatype ex2_event =
    RM_allocated nat
  | RM_move_constructed
  | RM_move_assigned
  | RM_released nat

record ResourceManager =
  RM_size :: nat
  RM_buffer :: "addr option"

record ex2_state =
  managers :: "addr \<rightharpoonup> ResourceManager"
  heap :: "addr \<rightharpoonup> int list"
  next_addr :: addr
  ex2_out :: "ex2_event list"

definition ex2_initial :: ex2_state where
  "ex2_initial = \<lparr>managers = Map.empty, heap = Map.empty, next_addr = 0, ex2_out = []\<rparr>"

text \<open>
  \<^verbatim>\<open>delete[] p\<close>: nothing for the null pointer; the array leaves the heap otherwise. Deleting
  what is not a live array has no defined result.
\<close>

definition delete_array :: "addr option \<Rightarrow> (addr \<rightharpoonup> int list) \<Rightarrow> (addr \<rightharpoonup> int list) option" where
  "delete_array p h =
     (case p of
        None \<Rightarrow> Some h
      | Some a \<Rightarrow> (case h a of None \<Rightarrow> None | Some xs \<Rightarrow> Some (h(a := None))))"

text \<open>\<^verbatim>\<open>explicit ResourceManager(size_t size) : size_(size), buffer_(new int[size]())\<close>\<close>

definition ResourceManager_ctor :: "addr \<Rightarrow> nat \<Rightarrow> ex2_state \<Rightarrow> ex2_state" where
  "ResourceManager_ctor this sz st =
     st\<lparr>managers := (managers st)(this \<mapsto> \<lparr>RM_size = sz, RM_buffer = Some (next_addr st)\<rparr>),
        heap := (heap st)(next_addr st \<mapsto> replicate sz 0),
        next_addr := next_addr st + 1,
        ex2_out := ex2_out st @ [RM_allocated sz]\<rparr>"

text \<open>
  \<^verbatim>\<open>ResourceManager(ResourceManager&& other) noexcept : size_(other.size_), buffer_(other.buffer_)\<close>
  \<^verbatim>\<open>{ other.size_ = 0; other.buffer_ = nullptr; ... }\<close>
\<close>

definition ResourceManager_move_ctor :: "addr \<Rightarrow> addr \<Rightarrow> ex2_state \<Rightarrow> ex2_state option" where
  "ResourceManager_move_ctor this other st =
     (case managers st other of
        None \<Rightarrow> None
      | Some oth \<Rightarrow>
          if this = other then None
          else Some (st\<lparr>managers := (managers st)
                         (this \<mapsto> \<lparr>RM_size = RM_size oth, RM_buffer = RM_buffer oth\<rparr>,
                          other \<mapsto> \<lparr>RM_size = 0, RM_buffer = None\<rparr>),
                       ex2_out := ex2_out st @ [RM_move_constructed]\<rparr>))"

text \<open>
  \<^verbatim>\<open>operator=(ResourceManager&& other) noexcept\<close>: when \<^verbatim>\<open>this != &other\<close>, \<^verbatim>\<open>delete[] buffer_\<close>,
  take over size and buffer, reset the source, print; otherwise nothing.
\<close>

definition ResourceManager_move_assign :: "addr \<Rightarrow> addr \<Rightarrow> ex2_state \<Rightarrow> ex2_state option" where
  "ResourceManager_move_assign this other st =
     (case (managers st this, managers st other) of
        (Some t, Some oth) \<Rightarrow>
          if this \<noteq> other
          then (case delete_array (RM_buffer t) (heap st) of
                  None \<Rightarrow> None
                | Some h \<Rightarrow>
                    Some (st\<lparr>managers := (managers st)
                               (this \<mapsto> \<lparr>RM_size = RM_size oth, RM_buffer = RM_buffer oth\<rparr>,
                                other \<mapsto> \<lparr>RM_size = 0, RM_buffer = None\<rparr>),
                             heap := h,
                             ex2_out := ex2_out st @ [RM_move_assigned]\<rparr>))
          else Some st
      | _ \<Rightarrow> None)"

text \<open>\<^verbatim>\<open>~ResourceManager() { if (buffer_) { delete[] buffer_; ... } }\<close>\<close>

definition ResourceManager_dtor :: "addr \<Rightarrow> ex2_state \<Rightarrow> ex2_state option" where
  "ResourceManager_dtor this st =
     (case managers st this of
        None \<Rightarrow> None
      | Some t \<Rightarrow>
          if RM_buffer t \<noteq> None
          then (case delete_array (RM_buffer t) (heap st) of
                  None \<Rightarrow> None
                | Some h \<Rightarrow>
                    Some (st\<lparr>managers := (managers st)(this := None), heap := h,
                             ex2_out := ex2_out st @ [RM_released (RM_size t)]\<rparr>))
          else Some (st\<lparr>managers := (managers st)(this := None)\<rparr>))"

definition ResourceManager_size :: "ResourceManager \<Rightarrow> nat" where
  "ResourceManager_size rm = RM_size rm"

definition ResourceManager_valid :: "ResourceManager \<Rightarrow> bool" where
  "ResourceManager_valid rm = (RM_buffer rm \<noteq> None)"

subsection \<open>Self move assignment\<close>

text \<open>
  Claim C10. Move-assigning a live \<^verbatim>\<open>ResourceManager\<close> to itself changes nothing: the
  state after \<^verbatim>\<open>rm = std::move(rm)\<close> is the state before it, so the object keeps its size and
  its buffer, a valid one is still valid, the heap holds the same arrays (nothing was
  released) and nothing was printed. The move assignment of \<^verbatim>\<open>ResourceWrapper\<close> to itself
  likewise leaves every wrapper and the resources' state as they were.
\<close>

theorem self_move_assign_is_noop:
  assumes "managers st a = Some rm"
  shows "ResourceManager_move_assign a a st = Some st
       \<and> (\<exists>st'. ResourceManager_move_assign a a st = Some st'
             \<and> managers st' a = Some rm
             \<and> heap st' = heap st
             \<and> ex2_out st' = ex2_out st
             \<and> (\<exists>rm'. managers st' a = Some rm'
                   \<and> ResourceManager_size rm' = ResourceManager_size rm
                   \<and> RM_buffer rm' = RM_buffer rm
                   \<and> ResourceManager_valid rm' = ResourceManager_valid rm))
       \<and> (ws b \<noteq> None \<longrightarrow>
            ResourceWrapper_move_assign Resource_dtor b b (ws, s) = Some (ws, s))"
  using assms
  by (auto simp: ResourceManager_move_assign_def ResourceWrapper_move_assign_def)

text \<open>
  Test 4 of the exercise's \<^verbatim>\<open>main\<close>: \<^verbatim>\<open>rm1(10)\<close>, \<^verbatim>\<open>rm2 = std::move(rm1)\<close> by construction,
  \<^verbatim>\<open>rm3(5)\<close>, \<^verbatim>\<open>rm3 = std::move(rm2)\<close>, then \<^verbatim>\<open>rm3 = std::move(rm3)\<close>; the objects at
  addresses 1, 2 and 3. And \<^verbatim>\<open>file2 = std::move(file2)\<close> of \<^verbatim>\<open>test_move_assignment\<close>,
  the wrapper at address 2.
\<close>

definition ex2_test4 :: "ex2_state option" where
  "ex2_test4 =
     Option.bind (ResourceManager_move_ctor 2 1 (ResourceManager_ctor 1 10 ex2_initial))
       (\<lambda>st. ResourceManager_move_assign 3 2 (ResourceManager_ctor 3 5 st))"

lemma ex2_test4_value:
  "ex2_test4 = Some
     \<lparr>managers = [1 \<mapsto> \<lparr>RM_size = 0, RM_buffer = None\<rparr>,
                  2 \<mapsto> \<lparr>RM_size = 0, RM_buffer = None\<rparr>,
                  3 \<mapsto> \<lparr>RM_size = 10, RM_buffer = Some 0\<rparr>],
      heap = [0 \<mapsto> replicate 10 0],
      next_addr = 2,
      ex2_out = [RM_allocated 10, RM_move_constructed, RM_allocated 5, RM_move_assigned]\<rparr>"
  by (auto simp: ex2_test4_def ResourceManager_move_ctor_def ResourceManager_ctor_def
        ResourceManager_move_assign_def delete_array_def ex2_initial_def fun_upd_def)

theorem self_move_assign_is_noop_witness:
  "(\<exists>st. ex2_test4 = Some st
      \<and> managers st 3 = Some \<lparr>RM_size = 10, RM_buffer = Some 0\<rparr>
      \<and> ResourceManager_valid \<lparr>RM_size = 10, RM_buffer = Some 0\<rparr>
      \<and> ResourceManager_move_assign 3 3 st = Some st)
   \<and> [2 \<mapsto> \<lparr>resource = Some \<lparr>fd = 1\<rparr>\<rparr>] (2::addr) \<noteq> None
   \<and> ResourceWrapper_move_assign FileHandle_dtor 2 2
        ([2 \<mapsto> \<lparr>resource = Some \<lparr>fd = 1\<rparr>\<rparr>], ex4_initial)
      = Some ([2 \<mapsto> \<lparr>resource = Some \<lparr>fd = 1\<rparr>\<rparr>], ex4_initial)"
proof -
  obtain st where st: "ex2_test4 = Some st"
    "managers st 3 = Some \<lparr>RM_size = 10, RM_buffer = Some 0\<rparr>"
    using ex2_test4_value by simp
  have w: "[2 \<mapsto> \<lparr>resource = Some \<lparr>fd = 1\<rparr>\<rparr>] (2::addr) \<noteq> None" by simp
  have v: "ResourceManager_valid \<lparr>RM_size = 10, RM_buffer = Some 0\<rparr>"
    by (simp add: ResourceManager_valid_def)
  from self_move_assign_is_noop [OF st(2),
      of "[2 \<mapsto> \<lparr>resource = Some \<lparr>fd = 1\<rparr>\<rparr>]" 2 FileHandle_dtor ex4_initial]
  have "ResourceManager_move_assign 3 3 st = Some st"
    "[2 \<mapsto> \<lparr>resource = Some \<lparr>fd = 1\<rparr>\<rparr>] (2::addr) \<noteq> None \<longrightarrow>
       ResourceWrapper_move_assign FileHandle_dtor 2 2
        ([2 \<mapsto> \<lparr>resource = Some \<lparr>fd = 1\<rparr>\<rparr>], ex4_initial)
      = Some ([2 \<mapsto> \<lparr>resource = Some \<lparr>fd = 1\<rparr>\<rparr>], ex4_initial)"
    by blast+
  with st w v show ?thesis by blast
qed

section \<open>Exercise 1: UniquePtr\<close>

text \<open>
  \<^verbatim>\<open>UniquePtr<T>\<close> and its partial specialization \<^verbatim>\<open>UniquePtr<T[]>\<close> hold one raw pointer
  \<^verbatim>\<open>ptr_\<close>: \<open>None\<close> for null, the address otherwise. What the claims are about is which
  delete expression runs on which address, so every delete of a non-null pointer is
  logged with its form; deleting the null pointer does nothing.
\<close>

datatype dealloc = Delete addr | DeleteArray addr

record UniquePtr =
  UniquePtr_ptr :: "addr option"

record UniquePtrArray =
  UniquePtrArray_ptr :: "addr option"

definition delete_object :: "addr option \<Rightarrow> dealloc list \<Rightarrow> dealloc list" where
  "delete_object p log = (case p of None \<Rightarrow> log | Some a \<Rightarrow> log @ [Delete a])"

definition delete_array_form :: "addr option \<Rightarrow> dealloc list \<Rightarrow> dealloc list" where
  "delete_array_form p log = (case p of None \<Rightarrow> log | Some a \<Rightarrow> log @ [DeleteArray a])"

text \<open>The primary template: \<^verbatim>\<open>~UniquePtr() { if (ptr_) { delete ptr_; } }\<close>\<close>

definition UniquePtr_dtor :: "UniquePtr \<Rightarrow> dealloc list \<Rightarrow> dealloc list" where
  "UniquePtr_dtor u log = (if UniquePtr_ptr u \<noteq> None then delete_object (UniquePtr_ptr u) log else log)"

text \<open>
  The specialization for arrays.
  \<^verbatim>\<open>explicit UniquePtr(pointer ptr = nullptr) noexcept : ptr_(ptr) {}\<close>
\<close>

definition UniquePtrArray_ctor :: "addr option \<Rightarrow> UniquePtrArray" where
  "UniquePtrArray_ctor p = \<lparr>UniquePtrArray_ptr = p\<rparr>"

text \<open>\<^verbatim>\<open>pointer release() noexcept { pointer old = ptr_; ptr_ = nullptr; return old; }\<close>\<close>

definition UniquePtrArray_release :: "UniquePtrArray \<Rightarrow> addr option \<times> UniquePtrArray" where
  "UniquePtrArray_release u = (UniquePtrArray_ptr u, u\<lparr>UniquePtrArray_ptr := None\<rparr>)"

text \<open>
  \<^verbatim>\<open>UniquePtr(UniquePtr&& other) noexcept : ptr_(other.release()) {}\<close>: the new object and
  the source as the constructor leaves it.
\<close>

definition UniquePtrArray_move_ctor :: "UniquePtrArray \<Rightarrow> UniquePtrArray \<times> UniquePtrArray" where
  "UniquePtrArray_move_ctor other =
     (case UniquePtrArray_release other of (old, other') \<Rightarrow> (\<lparr>UniquePtrArray_ptr = old\<rparr>, other'))"

text \<open>\<^verbatim>\<open>void reset(pointer ptr = nullptr) noexcept { if (ptr_ != ptr) { delete[] ptr_; ptr_ = ptr; } }\<close>\<close>

definition UniquePtrArray_reset ::
  "UniquePtrArray \<Rightarrow> addr option \<Rightarrow> dealloc list \<Rightarrow> UniquePtrArray \<times> dealloc list" where
  "UniquePtrArray_reset u p log =
     (if UniquePtrArray_ptr u \<noteq> p
      then (u\<lparr>UniquePtrArray_ptr := p\<rparr>, delete_array_form (UniquePtrArray_ptr u) log)
      else (u, log))"

text \<open>\<^verbatim>\<open>~UniquePtr() { if (ptr_) { delete[] ptr_; } }\<close>\<close>

definition UniquePtrArray_dtor :: "UniquePtrArray \<Rightarrow> dealloc list \<Rightarrow> dealloc list" where
  "UniquePtrArray_dtor u log =
     (if UniquePtrArray_ptr u \<noteq> None then delete_array_form (UniquePtrArray_ptr u) log else log)"

text \<open>
  Claim C8. Let a \<^verbatim>\<open>UniquePtr<T[]>\<close> manage the array at \<open>a\<close> and let a second one be
  move-constructed from it. The destination holds \<open>a\<close> and the source holds null. Over the
  lifetime of both, in either order of destruction, exactly one release of \<open>a\<close> is logged,
  in the array form \<^verbatim>\<open>delete[]\<close> and never in the scalar form: the destination's destructor
  logs it and the moved-from source's destructor logs nothing. The same holds after a
  second move, from the destination on to a third object.
\<close>

theorem UniquePtrArray_releases_once:
  "UniquePtrArray_ptr (fst (UniquePtrArray_move_ctor (UniquePtrArray_ctor (Some a)))) = Some a
   \<and> UniquePtrArray_ptr (snd (UniquePtrArray_move_ctor (UniquePtrArray_ctor (Some a)))) = None
   \<and> UniquePtrArray_dtor (fst (UniquePtrArray_move_ctor (UniquePtrArray_ctor (Some a)))) log
        = log @ [DeleteArray a]
   \<and> UniquePtrArray_dtor (snd (UniquePtrArray_move_ctor (UniquePtrArray_ctor (Some a)))) log = log
   \<and> UniquePtrArray_dtor (snd (UniquePtrArray_move_ctor (UniquePtrArray_ctor (Some a))))
        (UniquePtrArray_dtor (fst (UniquePtrArray_move_ctor (UniquePtrArray_ctor (Some a)))) [])
        = [DeleteArray a]
   \<and> UniquePtrArray_dtor (fst (UniquePtrArray_move_ctor (UniquePtrArray_ctor (Some a))))
        (UniquePtrArray_dtor (snd (UniquePtrArray_move_ctor (UniquePtrArray_ctor (Some a)))) [])
        = [DeleteArray a]
   \<and> count_list (UniquePtrArray_dtor (snd (UniquePtrArray_move_ctor (UniquePtrArray_ctor (Some a))))
        (UniquePtrArray_dtor (fst (UniquePtrArray_move_ctor (UniquePtrArray_ctor (Some a)))) []))
        (DeleteArray a) = 1
   \<and> count_list (UniquePtrArray_dtor (snd (UniquePtrArray_move_ctor (UniquePtrArray_ctor (Some a))))
        (UniquePtrArray_dtor (fst (UniquePtrArray_move_ctor (UniquePtrArray_ctor (Some a)))) []))
        (Delete a) = 0
   \<and> UniquePtrArray_dtor (snd (UniquePtrArray_move_ctor (UniquePtrArray_ctor (Some a))))
        (UniquePtrArray_dtor (snd (UniquePtrArray_move_ctor
            (fst (UniquePtrArray_move_ctor (UniquePtrArray_ctor (Some a))))))
          (UniquePtrArray_dtor (fst (UniquePtrArray_move_ctor
              (fst (UniquePtrArray_move_ctor (UniquePtrArray_ctor (Some a)))))) []))
        = [DeleteArray a]"
  by (simp add: UniquePtrArray_move_ctor_def UniquePtrArray_release_def UniquePtrArray_ctor_def
        UniquePtrArray_dtor_def delete_array_form_def)

theorem UniquePtrArray_releases_once_witness:
  "UniquePtrArray_move_ctor (UniquePtrArray_ctor (Some 7)) =
     (\<lparr>UniquePtrArray_ptr = Some 7\<rparr>, \<lparr>UniquePtrArray_ptr = None\<rparr>)
   \<and> UniquePtrArray_dtor \<lparr>UniquePtrArray_ptr = None\<rparr>
        (UniquePtrArray_dtor \<lparr>UniquePtrArray_ptr = Some 7\<rparr> []) = [DeleteArray 7]"
proof -
  have m: "UniquePtrArray_move_ctor (UniquePtrArray_ctor (Some 7)) =
     (\<lparr>UniquePtrArray_ptr = Some 7\<rparr>, \<lparr>UniquePtrArray_ptr = None\<rparr>)"
    by (simp add: UniquePtrArray_move_ctor_def UniquePtrArray_release_def UniquePtrArray_ctor_def)
  from UniquePtrArray_releases_once [of 7 "[]"]
  have "UniquePtrArray_dtor (snd (UniquePtrArray_move_ctor (UniquePtrArray_ctor (Some 7))))
        (UniquePtrArray_dtor (fst (UniquePtrArray_move_ctor (UniquePtrArray_ctor (Some 7)))) [])
        = [DeleteArray 7]"
    by blast
  with m show ?thesis by simp
qed

section \<open>Exercise 5: FixedArray\<close>

text \<open>
  \<^verbatim>\<open>FixedArray<T, N>\<close> holds \<^verbatim>\<open>T data_[N]\<close>: the template parameter \<open>N\<close> and the list of the
  \<open>N\<close> elements. The accessors return a reference into \<^verbatim>\<open>data_\<close>; a reference is the element
  it designates. An index is a \<^verbatim>\<open>size_t\<close>, a natural number. Each accessor returns its result
  and the array as it leaves it.
\<close>

datatype reference = Element nat

text \<open>\<^verbatim>\<open>reference operator[](size_type index) { return data_[index]; }\<close>: no check.\<close>

definition FixedArray_subscript :: "nat \<Rightarrow> 'a list \<Rightarrow> nat \<Rightarrow> reference \<times> 'a list" where
  "FixedArray_subscript N data index = (Element index, data)"

text \<open>
  \<^verbatim>\<open>reference at(size_type index)\<close>
  \<^verbatim>\<open>{ if (index >= N) throw std::out_of_range("FixedArray::at: index out of range");\<close>
  \<^verbatim>\<open>  return data_[index]; }\<close>; the const overload has the same body.
\<close>

definition FixedArray_at :: "nat \<Rightarrow> 'a list \<Rightarrow> nat \<Rightarrow> (exn + reference) \<times> 'a list" where
  "FixedArray_at N data index =
     (if index \<ge> N then (Inl (out_of_range ''FixedArray::at: index out of range''), data)
      else (Inr (Element index), data))"

text \<open>Reading through a reference; one that designates no element of the array reads nothing.\<close>

fun read_reference :: "'a list \<Rightarrow> reference \<Rightarrow> 'a option" where
  "read_reference data (Element i) = (if i < length data then Some (data ! i) else None)"

text \<open>
  \<^verbatim>\<open>FixedArray(std::initializer_list<T> init)\<close>: the first \<open>N\<close> values of the list, then the
  default value \<^verbatim>\<open>T{}\<close> up to \<open>N\<close> elements.
\<close>

definition FixedArray_init :: "nat \<Rightarrow> 'a \<Rightarrow> 'a list \<Rightarrow> 'a list" where
  "FixedArray_init N dflt init = take N init @ replicate (N - length init) dflt"

text \<open>
  Claim C9. \<^verbatim>\<open>at(i)\<close> throws exactly when \<open>i \<ge> N\<close>, and what it throws is
  \<^verbatim>\<open>std::out_of_range\<close>; for \<open>i < N\<close> it returns the reference that \<^verbatim>\<open>operator[](i)\<close> returns,
  which in an array of \<open>N\<close> elements reads element \<open>i\<close>; and in every case the array after
  the call is the array before it.
\<close>

theorem FixedArray_at_checked:
  "(\<exists>e. fst (FixedArray_at N data i) = Inl e) = (i \<ge> N)
   \<and> (i \<ge> N \<longrightarrow>
        fst (FixedArray_at N data i) = Inl (out_of_range ''FixedArray::at: index out of range''))
   \<and> (i < N \<longrightarrow>
        fst (FixedArray_at N data i) = Inr (fst (FixedArray_subscript N data i))
        \<and> (length data = N \<longrightarrow>
             read_reference data (fst (FixedArray_subscript N data i)) = Some (data ! i)))
   \<and> snd (FixedArray_at N data i) = data
   \<and> snd (FixedArray_subscript N data i) = data"
  by (simp add: FixedArray_at_def FixedArray_subscript_def)

text \<open>\<^verbatim>\<open>FixedArray<int, 5> arr{10, 20, 30, 40, 50}\<close> of the tests, read at 2 and at 5.\<close>

theorem FixedArray_at_checked_witness:
  "FixedArray_init 5 0 [10, 20, 30, 40, 50] = [10, 20, 30, 40, 50 :: int]
   \<and> FixedArray_at 5 [10, 20, 30, 40, 50 :: int] 2 = (Inr (Element 2), [10, 20, 30, 40, 50])
   \<and> FixedArray_subscript 5 [10, 20, 30, 40, 50 :: int] 2 = (Element 2, [10, 20, 30, 40, 50])
   \<and> read_reference [10, 20, 30, 40, 50 :: int] (Element 2) = Some 30
   \<and> FixedArray_at 5 [10, 20, 30, 40, 50 :: int] 5 =
        (Inl (out_of_range ''FixedArray::at: index out of range''), [10, 20, 30, 40, 50])"
proof -
  have i: "FixedArray_init 5 0 [10, 20, 30, 40, 50] = [10, 20, 30, 40, 50 :: int]"
    by (simp add: FixedArray_init_def)
  have s: "FixedArray_subscript 5 [10, 20, 30, 40, 50 :: int] 2 = (Element 2, [10, 20, 30, 40, 50])"
    by (simp add: FixedArray_subscript_def)
  from FixedArray_at_checked [of 5 "[10, 20, 30, 40, 50 :: int]" 2]
    FixedArray_at_checked [of 5 "[10, 20, 30, 40, 50 :: int]" 5] i s
  show ?thesis by (simp add: prod_eq_iff)
qed

section \<open>Copy or move: the constructor an initializer selects\<close>













subsection \<open>The classes of the exercises that declare both constructors\<close>













subsection \<open>A class with a move constructor from a constant rvalue\<close>




subsection \<open>Selection\<close>













end
